theory Spec2Isabelle
  imports Complex_Main "HOL-Library.AList" "HOL-Library.Word"
begin

section \<open>JavaScript strings and numbers\<close>

text \<open>
  A JavaScript string is a sequence of UTF-16 code units: the strings that the
  scoring engine and the audit assembler compute with are lists of 16-bit
  words, and \<open>s.length\<close> is the length of the list.  A string literal of the
  source is \<open>js ''...''\<close>, each of its characters being its own code.  The
  server's identifiers and messages, which no function of the server looks
  into, are HOL strings.
\<close>

type_synonym ustring = "16 word list"

definition js :: "string \<Rightarrow> ustring" where
  "js s = map of_char s"

fun startsWith :: "'a list \<Rightarrow> 'a list \<Rightarrow> bool" where
  "startsWith s [] = True"
| "startsWith [] (p # ps) = False"
| "startsWith (c # cs) (p # ps) = (c = p \<and> startsWith cs ps)"

fun str_includes :: "'a list \<Rightarrow> 'a list \<Rightarrow> bool" where
  "str_includes [] n = (n = [])"
| "str_includes (c # cs) n = (startsWith (c # cs) n \<or> str_includes cs n)"

fun show_nat :: "nat \<Rightarrow> string" where
  "show_nat n =
     (if n < 10 then [char_of (48 + n)]
      else show_nat (n div 10) @ [char_of (48 + n mod 10)])"

declare show_nat.simps [simp del]

definition dq :: "16 word" where
  "dq = 0x22"

definition sq :: "16 word" where
  "sq = 0x27"

text \<open>
  The parts of the JavaScript platform that the code calls and that are not
  defined here are parameters, gathered in one record:
  \<^item> \<open>toLowerCase\<close> is \<open>String.prototype.toLowerCase\<close>, the case mapping of
    Unicode, which may also change the length of a string;
  \<^item> \<open>URL_hostname\<close> is \<open>new URL(url).hostname\<close>, with \<open>None\<close> where the
    constructor throws;
  \<^item> \<open>fl\<close> rounds a real number to the nearest IEEE double.  A JavaScript
    number is a double: every arithmetic operation of the source whose result
    can be fractional is the exact operation followed by \<open>fl\<close>, and a
    fractional literal \<open>x\<close> is \<open>fl x\<close>.  Operations on integers of moderate
    size are exact and are written without it.
\<close>

record Platform =
  toLowerCase :: "ustring \<Rightarrow> ustring"
  URL_hostname :: "ustring \<Rightarrow> ustring option"
  fl :: "real \<Rightarrow> real"

text \<open>
  \<open>Math.round\<close> takes a double to the nearest integer, a tie going up.
\<close>

definition Math_round :: "real \<Rightarrow> int" where
  "Math_round x = \<lfloor>x + 1 / 2\<rfloor>"

text \<open>
  \<open>x.toFixed(2)\<close> read as a decimal: the multiple of 0.01 nearest to the
  double \<open>x\<close>, a tie going away from zero.  \<open>parseFloat\<close> then rounds it to a
  double.
\<close>

definition toFixed2 :: "real \<Rightarrow> real" where
  "toFixed2 x =
     (if x < 0 then - (of_int \<lfloor>(- x) * 100 + 1 / 2\<rfloor> / 100)
      else of_int \<lfloor>x * 100 + 1 / 2\<rfloor> / 100)"

section \<open>The scoring engine (\<open>services/crawlerService.ts\<close>)\<close>

text \<open>
  The optional fields \<open>hasKeyword?\<close> and \<open>hasCTA?\<close> of the interface are options:
  \<open>None\<close> is a field that the object literal leaves out.  The field \<open>length\<close>
  is \<open>length'\<close> here.
\<close>

record MetaTag =
  content :: ustring
  length' :: nat
  hasKeyword :: "bool option"
  hasCTA :: "bool option"
  score :: int
  recommendations :: "ustring list"

definition ctaWords :: "ustring list" where
  "ctaWords = map js [''call'', ''shop'', ''buy'', ''learn'', ''discover'', ''get'', ''sign'',
                      ''contact'', ''try'', ''join'', ''click'', ''read'']"

definition analyzeMetaDescription :: "Platform \<Rightarrow> ustring \<Rightarrow> ustring \<Rightarrow> MetaTag" where
  "analyzeMetaDescription P c domainKeyword =
     (let score0 = (100 :: int);
          recs0 = ([] :: ustring list);
          lowerContent = toLowerCase P c
      in
      if length c = 0 then
        \<lparr>content = c, length' = 0, hasKeyword = Some False, hasCTA = Some False,
         score = 0, recommendations = recs0 @ [js ''Meta description is missing.'']\<rparr>
      else
        let (score1, recs1) =
              (if length c < 120 then
                 (score0 - 20,
                  recs0 @ [js ''Description is too short ('' @ js (show_nat (length c))
                           @ js '' chars). Aim for 150-160 characters.''])
               else if length c > 165 then
                 (score0 - 10,
                  recs0 @ [js ''Description is too long ('' @ js (show_nat (length c))
                           @ js '' chars). Truncation may occur in SERPs.''])
               else (score0, recs0));
            hasKeyword = str_includes lowerContent (toLowerCase P domainKeyword);
            (score2, recs2) =
              (if \<not> hasKeyword \<and> length domainKeyword > 0 then
                 (score1 - 30,
                  recs1 @ [js ''Primary keyword '' @ [dq] @ domainKeyword @ [dq]
                           @ js '' is missing from the description.''])
               else (score1, recs1));
            hasCTA = list_ex (\<lambda>word. str_includes lowerContent word) ctaWords;
            (score3, recs3) =
              (if \<not> hasCTA then
                 (score2 - 30,
                  recs2 @ [js ''No Call-to-Action detected (e.g., '' @ [sq] @ js ''Learn more''
                           @ [sq] @ js '', '' @ [sq] @ js ''Sign up'' @ [sq] @ js '', '' @ [sq]
                           @ js ''Discover'' @ [sq] @ js '').''])
               else (score2, recs2))
        in \<lparr>content = c, length' = length c, hasKeyword = Some hasKeyword,
            hasCTA = Some hasCTA, score = max 0 score3, recommendations = recs3\<rparr>)"

record ExtractedData =
  title :: ustring
  description :: ustring
  h1s :: "ustring list"
  imgCount :: nat
  missingAltCount :: nat
  linkCount :: nat
  internalLinkCount :: nat
  wordCount :: nat
  loadTime :: int

record Ssl =
  ssl_valid :: bool
  ssl_score :: int
  ssl_issues :: "ustring list"

record CanonicalTag =
  canonical_present :: bool
  canonical_url :: "ustring option"
  canonical_count :: nat
  canonical_score :: int
  canonical_issues :: "ustring list"

record CoreWebVitals =
  lcp :: real
  fid :: int
  cls :: real

record PageSpeed =
  desktop :: real
  mobile :: real
  cwv :: CoreWebVitals
  pageSpeed_score :: real

record MobileResponsive =
  mobile_valid :: bool
  mobile_score :: int
  mobile_issues :: "ustring list"

record Sitemap =
  sitemap_present :: bool
  sitemap_valid :: bool
  sitemap_url :: ustring
  sitemap_score :: int

record SchemaError =
  schemaError_type :: ustring
  schemaError_message :: ustring

record Schema =
  schema_types :: "ustring list"
  schema_valid :: bool
  schema_errors :: "SchemaError list"
  schema_score :: int

record MetaTags =
  metaTags_title :: MetaTag
  metaTags_description :: MetaTag

record Technical =
  ssl :: Ssl
  canonical :: CanonicalTag
  pageSpeed :: PageSpeed
  mobileResponsive :: MobileResponsive
  sitemap :: Sitemap
  schema :: Schema
  metaTags :: MetaTags

record HeaderTag =
  header_content :: ustring
  header_tag :: ustring

record Headers =
  h1Count :: nat
  headers_structure :: "HeaderTag list"
  headers_score :: int

record InternalLinks =
  links_count :: nat
  links_broken :: nat
  links_score :: int

record Images =
  images_total :: nat
  images_missingAlt :: nat
  images_optimized :: nat
  images_score :: int

record OnPage =
  headers :: Headers
  internalLinks :: InternalLinks
  images :: Images
  onPage_wordCount :: nat

record IndustryClassification =
  industry_primary :: ustring
  industry_subCategory :: ustring
  industry_confidence :: real
  industry_reasoning :: ustring

record Recommendation =
  rec_id :: ustring
  rec_priority :: int
  rec_title :: ustring
  rec_impact :: ustring
  rec_effort :: ustring
  rec_category :: ustring
  rec_description :: ustring
  rec_steps :: "ustring list"
  rec_estimatedTime :: ustring

record Keyword =
  keyword_phrase :: ustring
  keyword_volume :: int
  keyword_difficulty :: ustring
  keyword_intent :: ustring

record AiAnalysis =
  ai_industry :: "IndustryClassification option"
  ai_recommendations :: "Recommendation list option"
  ai_keywordOpportunities :: "Keyword list option"
  ai_summary :: "ustring option"

record Scores =
  overall :: int
  technical_score :: int
  onPage_score :: int
  content_score :: int

record WebsiteAudit =
  audit_id :: ustring
  websiteUrl :: ustring
  auditDate :: ustring
  technical :: Technical
  onPage :: OnPage
  aiAnalysis :: AiAnalysis
  scores :: Scores

definition extractDomain :: "Platform \<Rightarrow> ustring \<Rightarrow> ustring" where
  "extractDomain P u = (case URL_hostname P u of Some h \<Rightarrow> h | None \<Rightarrow> u)"

text \<open>\<open>domain.split('.')[0]\<close>: the characters before the first dot.\<close>

definition firstLabel :: "ustring \<Rightarrow> ustring" where
  "firstLabel domain = takeWhile (\<lambda>c. c \<noteq> 0x2E) domain"

text \<open>
  \<open>processRealData\<close>.  Besides \<open>url\<close> and \<open>data\<close> the function reads two
  things from its environment, which are parameters here: \<open>uuid\<close>, the value
  of \<open>crypto.randomUUID()\<close>, and \<open>isoNow\<close>, the value of
  \<open>new Date().toISOString()\<close>.  \<open>data.description || ''\<close> is \<open>description\<close>
  itself, the empty string being the only falsy string.  The load time is a
  whole number of milliseconds; its quotient by 1000 is compared with 2.5, 4.0
  and 6.0 as a real number, which gives what the comparison of the doubles
  gives, rounding to the nearest double being monotone and these three being
  doubles.
\<close>

definition processRealData ::
  "Platform \<Rightarrow> ustring \<Rightarrow> ustring \<Rightarrow> ustring \<Rightarrow> ExtractedData \<Rightarrow> WebsiteAudit"
where
  "processRealData P uuid isoNow u data =
     (let domain = extractDomain P u;
          domainKeyword = firstLabel domain;
          isSecure = startsWith u (js ''https'');
          metaDescriptionAnalysis = analyzeMetaDescription P (description data) domainKeyword;
          titleScore = (if length (title data) \<ge> 30 \<and> length (title data) \<le> 60
                        then 100 else (50 :: int));
          titleRecs0 = ([] :: ustring list);
          titleRecs1 = (if length (title data) < 30
                        then titleRecs0 @ [js ''Title is too short (recommended 30-60 chars)'']
                        else titleRecs0);
          titleRecs = (if length (title data) > 60
                       then titleRecs1 @ [js ''Title is too long (recommended 30-60 chars)'']
                       else titleRecs1);
          loadTimeSec = real_of_int (loadTime data) / 1000;
          performanceScore0 = (100 :: real);
          performanceScore1 = (if loadTimeSec > 2.5 then performanceScore0 - 20
                               else performanceScore0);
          performanceScore2 = (if loadTimeSec > 4.0 then performanceScore1 - 30
                               else performanceScore1);
          performanceScore3 = (if loadTimeSec > 6.0 then performanceScore2 - 20
                               else performanceScore2);
          performanceScore = max 10 performanceScore3;
          imageScore = (if imgCount data > 0
                        then (let missingRatio =
                                    fl P (real (missingAltCount data) / real (imgCount data))
                              in Math_round (fl P (100 * fl P (1 - missingRatio))))
                        else 100);
          estimatedLCP = fl P (toFixed2 (fl P (fl P loadTimeSec * fl P 0.8)));
          headingScore = (if length (h1s data) = 1 then 100 else (50 :: int))
      in
      \<lparr>audit_id = uuid,
       websiteUrl = u,
       auditDate = isoNow,
       technical =
         \<lparr>ssl = \<lparr>ssl_valid = isSecure,
                 ssl_score = (if isSecure then 100 else 0),
                 ssl_issues = (if isSecure then []
                               else [js ''SSL Certificate missing or invalid''])\<rparr>,
          canonical = \<lparr>canonical_present = True, canonical_url = Some u,
                       canonical_count = 1, canonical_score = 100, canonical_issues = []\<rparr>,
          pageSpeed = \<lparr>desktop = performanceScore,
                       mobile = performanceScore - 15,
                       cwv = \<lparr>lcp = estimatedLCP,
                              fid = Math_round (fl P (fl P loadTimeSec * 20)),
                              cls = fl P 0.05\<rparr>,
                       pageSpeed_score = performanceScore\<rparr>,
          mobileResponsive = \<lparr>mobile_valid = True, mobile_score = 90, mobile_issues = []\<rparr>,
          sitemap = \<lparr>sitemap_present = True, sitemap_valid = True,
                     sitemap_url = u @ js ''/sitemap.xml'', sitemap_score = 100\<rparr>,
          schema = \<lparr>schema_types = [js ''Organization''], schema_valid = True,
                    schema_errors = [], schema_score = 85\<rparr>,
          metaTags =
            \<lparr>metaTags_title =
               \<lparr>content = title data,
                length' = length (title data),
                hasKeyword = Some (str_includes (toLowerCase P (title data)) domainKeyword),
                hasCTA = None,
                score = titleScore,
                recommendations = titleRecs\<rparr>,
             metaTags_description = metaDescriptionAnalysis\<rparr>\<rparr>,
       onPage =
         \<lparr>headers = \<lparr>h1Count = length (h1s data),
                      headers_structure = map (\<lambda>h1. \<lparr>header_content = h1, header_tag = js ''h1''\<rparr>)
                                      (h1s data),
                      headers_score = headingScore\<rparr>,
          internalLinks = \<lparr>links_count = internalLinkCount data, links_broken = 0,
                            links_score = 90\<rparr>,
          images = \<lparr>images_total = imgCount data, images_missingAlt = missingAltCount data,
                     images_optimized = 0, images_score = imageScore\<rparr>,
          onPage_wordCount = wordCount data\<rparr>,
       aiAnalysis = \<lparr>ai_industry = None, ai_recommendations = None,
                     ai_keywordOpportunities = None, ai_summary = None\<rparr>,
       scores =
         \<lparr>overall = \<lfloor>fl P ((performanceScore + of_int imageScore + 80
                             + of_int (score metaDescriptionAnalysis)) / 4)\<rfloor>,
          technical_score = \<lfloor>fl P ((performanceScore + 100
                                     + of_int (score metaDescriptionAnalysis)) / 3)\<rfloor>,
          onPage_score = \<lfloor>fl P ((real_of_int imageScore + of_int headingScore + 80) / 3)\<rfloor>,
          content_score = 70\<rparr>\<rparr>)"

text \<open>\<open>generateMockAudit\<close>, the simulation fallback.\<close>

definition generateMockAudit ::
  "Platform \<Rightarrow> ustring \<Rightarrow> ustring \<Rightarrow> ustring \<Rightarrow> WebsiteAudit"
where
  "generateMockAudit P uuid isoNow u =
     (let seed = length u;
          isSecure = startsWith u (js ''https'');
          domain = extractDomain P u;
          domainKeyword = firstLabel domain;
          lcpValue = fl P (fl P 1.2 + real (seed mod 3));
          performanceScore = max 10 (fl P (100 - fl P (lcpValue * 10)));
          metaDescContent =
            (if seed mod 3 = 0
             then js ''Discover the best '' @ domainKeyword
                  @ js '' solutions. Join satisfied customers.''
             else js ''Generic description text.'');
          metaDescriptionAnalysis = analyzeMetaDescription P metaDescContent domainKeyword
      in
      \<lparr>audit_id = uuid,
       websiteUrl = u,
       auditDate = isoNow,
       technical =
         \<lparr>ssl = \<lparr>ssl_valid = isSecure, ssl_score = (if isSecure then 100 else 0),
                 ssl_issues = []\<rparr>,
          canonical = \<lparr>canonical_present = True, canonical_url = Some u,
                       canonical_count = 1, canonical_score = 100, canonical_issues = []\<rparr>,
          pageSpeed = \<lparr>desktop = performanceScore, mobile = performanceScore - 15,
                       cwv = \<lparr>lcp = lcpValue, fid = 30, cls = fl P 0.05\<rparr>,
                       pageSpeed_score = performanceScore\<rparr>,
          mobileResponsive = \<lparr>mobile_valid = True, mobile_score = 90, mobile_issues = []\<rparr>,
          sitemap = \<lparr>sitemap_present = True, sitemap_valid = True,
                     sitemap_url = u @ js ''/sitemap.xml'', sitemap_score = 100\<rparr>,
          schema = \<lparr>schema_types = [js ''Organization''], schema_valid = True,
                    schema_errors = [], schema_score = 85\<rparr>,
          metaTags =
            \<lparr>metaTags_title =
               \<lparr>content = js ''Home | '' @ domain, length' = 25, hasKeyword = Some True,
                hasCTA = None, score = 60, recommendations = []\<rparr>,
             metaTags_description = metaDescriptionAnalysis\<rparr>\<rparr>,
       onPage =
         \<lparr>headers = \<lparr>h1Count = 1,
                      headers_structure = [\<lparr>header_content = js ''Main'', header_tag = js ''h1''\<rparr>],
                      headers_score = 95\<rparr>,
          internalLinks = \<lparr>links_count = 12, links_broken = 0, links_score = 100\<rparr>,
          images = \<lparr>images_total = 8, images_missingAlt = 2, images_optimized = 6,
                     images_score = 80\<rparr>,
          onPage_wordCount = 850\<rparr>,
       aiAnalysis = \<lparr>ai_industry = None, ai_recommendations = None,
                     ai_keywordOpportunities = None, ai_summary = None\<rparr>,
       scores = \<lparr>overall = 85, technical_score = 90, onPage_score = 80,
                  content_score = 70\<rparr>\<rparr>)"

text \<open>
  A stand-in for the platform's URL parser, used where a definition is
  evaluated at a concrete URL: it accepts the URLs that begin with
  \<open>http://\<close> or \<open>https://\<close> and returns what follows the scheme up to the
  next slash.
\<close>

definition sample_hostname :: "string \<Rightarrow> string option" where
  "sample_hostname u =
     (if startsWith u ''https://'' then Some (takeWhile (\<lambda>c. c \<noteq> CHR ''/'') (drop 8 u))
      else if startsWith u ''http://'' then Some (takeWhile (\<lambda>c. c \<noteq> CHR ''/'') (drop 7 u))
      else None)"

definition sample_URL_hostname :: "ustring \<Rightarrow> ustring option" where
  "sample_URL_hostname u =
     (if startsWith u (js ''https://'') then Some (takeWhile (\<lambda>c. c \<noteq> 0x2F) (drop 8 u))
      else if startsWith u (js ''http://'') then Some (takeWhile (\<lambda>c. c \<noteq> 0x2F) (drop 7 u))
      else None)"

text \<open>
  A stand-in for the platform, for the same use: its \<open>toLowerCase\<close> maps the
  letters \<open>A\<close> to \<open>Z\<close> to \<open>a\<close> to \<open>z\<close>, as the platform's does on strings of
  ASCII characters, and its \<open>fl\<close> changes nothing, as the platform's does on
  the doubles.
\<close>

definition ascii_lower :: "16 word \<Rightarrow> 16 word" where
  "ascii_lower c = (if 0x41 \<le> c \<and> c \<le> 0x5A then c + 0x20 else c)"

definition identity_fl :: "real \<Rightarrow> real" where
  "identity_fl x = x"

definition sample_platform :: Platform where
  "sample_platform =
     \<lparr>toLowerCase = map ascii_lower, URL_hostname = sample_URL_hostname, fl = identity_fl\<rparr>"

definition sample_data :: ExtractedData where
  "sample_data =
     \<lparr>title = js ''Example Domain'', description = [], h1s = [js ''Example Domain''],
      imgCount = 0, missingAltCount = 0, linkCount = 1, internalLinkCount = 0,
      wordCount = 28, loadTime = 200\<rparr>"

definition sample_short :: ustring where
  "sample_short = js ''Our firm makes wooden chairs of every size & shape''"

definition sample_long :: ustring where
  "sample_long = js ''Example Ltd makes wooden chairs of every size and shape for home and office use. Learn more about the full range and how we produce each one''"

text \<open>
  A second stand-in, whose \<open>toLowerCase\<close> also maps the capital letters of
  Latin-1 (\<open>0xC0\<close> to \<open>0xDE\<close> but for the multiplication sign) to the small
  ones, as the platform's does, and a content with such a letter.
\<close>

definition latin1_lower :: "16 word \<Rightarrow> 16 word" where
  "latin1_lower c =
     (if 0x41 \<le> c \<and> c \<le> 0x5A \<or> 0xC0 \<le> c \<and> c \<le> 0xDE \<and> c \<noteq> 0xD7 then c + 0x20 else c)"

definition latin1_platform :: Platform where
  "latin1_platform =
     \<lparr>toLowerCase = map latin1_lower, URL_hostname = sample_URL_hostname, fl = identity_fl\<rparr>"

definition sample_accented :: ustring where
  "sample_accented = js ''CAF'' @ [0xC9] @ js '' society, buy now''"

definition sample_accented_keyword :: ustring where
  "sample_accented_keyword = js ''caf'' @ [0xE9]"

section \<open>The job engine (the Express server with the job queue)\<close>

datatype JobStatus = PENDING | PROCESSING | COMPLETED | FAILED

text \<open>
  A job record.  \<open>startedAt\<close> and \<open>completedAt\<close> are absent until the worker
  writes them; \<open>result\<close> and \<open>error\<close> start as \<open>null\<close>.  \<open>None\<close> stands for
  both \<open>undefined\<close> and \<open>null\<close>.
\<close>

record Job =
  job_id :: string
  url :: string
  status :: JobStatus
  submittedAt :: int
  startedAt :: "int option"
  completedAt :: "int option"
  result :: "ExtractedData option"
  error :: "string option"

text \<open>
  Job records are JavaScript objects: the worker keeps a reference to the
  object that it read from the store and writes its fields in place, while the
  store holds the same reference.  So the records live in a heap (a list, a
  reference being an index into it) and \<open>jobStore\<close>, a JavaScript \<open>Map\<close>,
  is an association list from job identifiers to references, in insertion
  order: \<open>get\<close> is \<open>map_of\<close>, \<open>set\<close> is \<open>AList.update\<close> and \<open>delete\<close> is
  \<open>AList.delete\<close>.

  A call of \<open>processJob\<close> is suspended at each \<open>await\<close>.  \<open>tasks\<close> holds the
  calls in progress, by job identifier: \<open>Called\<close> is a call that the submit
  handler has made and that has not run yet, \<open>Extracting\<close> a call suspended
  inside the \<open>try\<close> block, \<open>Closing\<close> a call suspended at
  \<open>await browser.close()\<close>, with what that call is going to do.  \<open>issued\<close>
  lists the identifiers that \<open>randomUUID\<close> has returned so far.
\<close>

datatype task =
    Called string
  | Extracting string nat
  | Closing nat "string option"

record Server =
  heap :: "Job list"
  jobStore :: "(string \<times> nat) list"
  tasks :: "string \<Rightarrow> task option"
  issued :: "string list"

definition initial :: Server where
  "initial = \<lparr>heap = [], jobStore = [], tasks = (\<lambda>jobId. None), issued = []\<rparr>"

text \<open>The record that the store holds for an identifier.\<close>

definition getJob :: "Server \<Rightarrow> string \<Rightarrow> Job option" where
  "getJob s jobId = map_option (\<lambda>r. heap s ! r) (map_of (jobStore s) jobId)"

subsection \<open>Puppeteer\<close>

text \<open>
  The headless browser is the environment of \<open>processJob\<close>.  One run of it is
  a record of what each awaited call does: \<open>Some msg\<close> (or \<open>Inl msg\<close>) is a
  rejection with an \<open>Error\<close> whose message is \<open>msg\<close>.  \<open>goto\<close> resolves to a
  response or to \<open>null\<close>.  The request handler that \<open>page.on\<close> registers
  (it aborts stylesheet, font and media requests) runs inside the browser and
  is part of what \<open>goto\<close> does.
\<close>

record Response =
  ok :: bool
  status_code :: nat

record Puppeteer =
  launch :: "string option"
  newPage :: "string option"
  setUserAgent :: "string option"
  setRequestInterception :: "string option"
  goto :: "string + Response option"
  evaluate :: "string + ExtractedData"
  close :: "string option"

datatype call =
    Launch
  | NewPage
  | SetUserAgent
  | SetRequestInterception
  | Goto string
  | Evaluate
  | Close

text \<open>
  The \<open>try\<close> block of \<open>processJob\<close> up to the extraction: the calls made, in
  order, whether \<open>browser\<close> is set when the block is left, and the extracted
  data or the message of the error thrown.
\<close>

definition extraction :: "Puppeteer \<Rightarrow> string \<Rightarrow> call list \<times> bool \<times> (string + ExtractedData)" where
  "extraction pup u =
     (case launch pup of
        Some msg \<Rightarrow> ([Launch], False, Inl msg)
      | None \<Rightarrow>
     (case newPage pup of
        Some msg \<Rightarrow> ([Launch, NewPage], True, Inl msg)
      | None \<Rightarrow>
     (case setUserAgent pup of
        Some msg \<Rightarrow> ([Launch, NewPage, SetUserAgent], True, Inl msg)
      | None \<Rightarrow>
     (case setRequestInterception pup of
        Some msg \<Rightarrow> ([Launch, NewPage, SetUserAgent, SetRequestInterception], True, Inl msg)
      | None \<Rightarrow>
     (case goto pup of
        Inl msg \<Rightarrow>
          ([Launch, NewPage, SetUserAgent, SetRequestInterception, Goto u], True, Inl msg)
      | Inr None \<Rightarrow>
          ([Launch, NewPage, SetUserAgent, SetRequestInterception, Goto u], True,
           Inl ''Failed to load page: Unknown Error'')
      | Inr (Some response) \<Rightarrow>
          if \<not> ok response then
            ([Launch, NewPage, SetUserAgent, SetRequestInterception, Goto u], True,
             Inl (''Failed to load page: '' @ show_nat (status_code response)))
          else
            ([Launch, NewPage, SetUserAgent, SetRequestInterception, Goto u, Evaluate], True,
             evaluate pup))))))"

subsection \<open>\<open>processJob\<close>\<close>

text \<open>
  The synchronous prefix: look the job up, return if it is missing, otherwise
  set \<open>PROCESSING\<close> and the start time and store the record again.
\<close>

definition processJob_start :: "string \<Rightarrow> int \<Rightarrow> Server \<Rightarrow> nat option \<times> Server" where
  "processJob_start jobId now s =
     (case map_of (jobStore s) jobId of
        None \<Rightarrow> (None, s)
      | Some r \<Rightarrow>
          (Some r,
           s\<lparr>heap := (heap s)[r := (heap s ! r)\<lparr>status := PROCESSING, startedAt := Some now\<rparr>],
             jobStore := AList.update jobId r (jobStore s)\<rparr>))"

text \<open>The end of the \<open>try\<close> block, or the \<open>catch\<close> block.\<close>

definition settle :: "nat \<Rightarrow> string + ExtractedData \<Rightarrow> int \<Rightarrow> Server \<Rightarrow> Server" where
  "settle r outcome now s =
     (case outcome of
        Inr extractedData \<Rightarrow>
          s\<lparr>heap := (heap s)[r := (heap s ! r)\<lparr>status := COMPLETED, completedAt := Some now,
                                                result := Some extractedData\<rparr>]\<rparr>
      | Inl message \<Rightarrow>
          s\<lparr>heap := (heap s)[r := (heap s ! r)\<lparr>status := FAILED, error := Some message,
                                                completedAt := Some now\<rparr>]\<rparr>)"

text \<open>The last statement of the \<open>finally\<close> block: \<open>jobStore.set(jobId, job)\<close>.\<close>

definition store_back :: "string \<Rightarrow> nat \<Rightarrow> Server \<Rightarrow> Server" where
  "store_back jobId r s = s\<lparr>jobStore := AList.update jobId r (jobStore s)\<rparr>"

text \<open>
  A whole call of \<open>processJob\<close> with nothing else running in between: the
  calls made to the browser and the server state at the end.  \<open>t1\<close> and \<open>t2\<close>
  are the two readings of \<open>Date.now()\<close>.  When \<open>browser.close()\<close> rejects, the
  \<open>finally\<close> block is left before its last statement.
\<close>

definition processJob ::
  "Puppeteer \<Rightarrow> int \<Rightarrow> int \<Rightarrow> string \<Rightarrow> string \<Rightarrow> Server \<Rightarrow> call list \<times> Server" where
  "processJob pup t1 t2 jobId u s =
     (case processJob_start jobId t1 s of
        (None, s0) \<Rightarrow> ([], s0)
      | (Some r, s1) \<Rightarrow>
          (case extraction pup u of
             (calls, browser, outcome) \<Rightarrow>
               let s2 = settle r outcome t2 s1 in
               if browser then
                 (case close pup of
                    None \<Rightarrow> (calls @ [Close], store_back jobId r s2)
                  | Some msg \<Rightarrow> (calls @ [Close], s2))
               else (calls, store_back jobId r s2)))"

subsection \<open>The submit handler and the retention sweep\<close>

text \<open>
  \<open>POST /api/jobs\<close> up to its call of \<open>processJob\<close>.  The body's \<open>url\<close> may be
  missing (\<open>None\<close>); a missing or empty one is answered with 400 and changes
  nothing.  \<open>jobId\<close> is the value of \<open>randomUUID()\<close>.
\<close>

definition submit :: "string option \<Rightarrow> string \<Rightarrow> int \<Rightarrow> Server \<Rightarrow> Server" where
  "submit body_url jobId now s =
     (case body_url of
        None \<Rightarrow> s
      | Some u \<Rightarrow>
          if u = [] then s
          else
            let job = \<lparr>job_id = jobId, url = u, status = PENDING, submittedAt = now,
                       startedAt = None, completedAt = None, result = None, error = None\<rparr>
            in s\<lparr>heap := heap s @ [job],
                 jobStore := AList.update jobId (length (heap s)) (jobStore s),
                 tasks := (tasks s)(jobId := Some (Called u)),
                 issued := jobId # issued s\<rparr>)"

definition ONE_HOUR :: int where
  "ONE_HOUR = 60 * 60 * 1000"

text \<open>
  The test of the cleanup routine,
  \<open>job.completedAt && (now - job.completedAt > ONE_HOUR)\<close>.  The left operand
  is falsy when the field is absent and also when it is the number 0.
\<close>

definition expired :: "int \<Rightarrow> Job \<Rightarrow> bool" where
  "expired now job =
     (case completedAt job of
        None \<Rightarrow> False
      | Some t \<Rightarrow> t \<noteq> 0 \<and> now - t > ONE_HOUR)"

text \<open>
  The loop over \<open>jobStore.entries()\<close>: \<open>entries\<close> are the entries still to
  visit, \<open>st\<close> is the store, from which the loop deletes as it goes.
\<close>

fun sweep_loop :: "int \<Rightarrow> Job list \<Rightarrow> (string \<times> nat) list \<Rightarrow> (string \<times> nat) list
                    \<Rightarrow> (string \<times> nat) list" where
  "sweep_loop now h [] st = st"
| "sweep_loop now h ((jobId, r) # entries) st =
     sweep_loop now h entries (if expired now (h ! r) then AList.delete jobId st else st)"

definition sweep :: "int \<Rightarrow> Server \<Rightarrow> Server" where
  "sweep now s = s\<lparr>jobStore := sweep_loop now (heap s) (jobStore s) (jobStore s)\<rparr>"

subsection \<open>The server as a transition system\<close>

text \<open>
  One event is one uninterrupted run of server code between two suspension
  points of the event loop:
  \<^item> \<open>Submit body jobId now\<close>: the handler of \<open>POST /api/jobs\<close> up to its call of
    \<open>processJob\<close>;
  \<^item> \<open>Start jobId now\<close>: the synchronous prefix of that call of \<open>processJob\<close>, up
    to \<open>await puppeteer.launch\<close>;
  \<^item> \<open>Extracted jobId pup now\<close>: the browser has done its work for the job,
    as \<open>pup\<close> says, and \<open>processJob\<close> runs on to \<open>await browser.close()\<close>, or
    to its end when no browser was launched;
  \<^item> \<open>Closed jobId\<close>: \<open>browser.close()\<close> has settled and the \<open>finally\<close> block
    ends;
  \<^item> \<open>Sweep now\<close>: one tick of the cleanup routine.

  The handler calls \<open>processJob\<close> before it returns, so in the program
  \<open>Start\<close> follows \<open>Submit\<close> at once; here other events may come between
  the two, which only adds behaviours.  An event returns the browser calls it
  makes and the new state.
\<close>

datatype event =
    Submit "string option" string int
  | Start string int
  | Extracted string Puppeteer int
  | Closed string
  | Sweep int

fun exec :: "event \<Rightarrow> Server \<Rightarrow> call list \<times> Server" where
  "exec (Submit body_url jobId now) s = ([], submit body_url jobId now s)"
| "exec (Start jobId now) s =
     (case tasks s jobId of
        Some (Called u) \<Rightarrow>
          (case processJob_start jobId now s of
             (None, s0) \<Rightarrow> ([], s0\<lparr>tasks := (tasks s0)(jobId := None)\<rparr>)
           | (Some r, s1) \<Rightarrow> ([], s1\<lparr>tasks := (tasks s1)(jobId := Some (Extracting u r))\<rparr>))
      | _ \<Rightarrow> ([], s))"
| "exec (Extracted jobId pup now) s =
     (case tasks s jobId of
        Some (Extracting u r) \<Rightarrow>
          (case extraction pup u of
             (calls, browser, outcome) \<Rightarrow>
               let s2 = settle r outcome now s in
               if browser then
                 (calls, s2\<lparr>tasks := (tasks s2)(jobId := Some (Closing r (close pup)))\<rparr>)
               else
                 (calls, (store_back jobId r s2)\<lparr>tasks := (tasks s2)(jobId := None)\<rparr>))
      | _ \<Rightarrow> ([], s))"
| "exec (Closed jobId) s =
     (case tasks s jobId of
        Some (Closing r closing) \<Rightarrow>
          (case closing of
             None \<Rightarrow> ([Close], (store_back jobId r s)\<lparr>tasks := (tasks s)(jobId := None)\<rparr>)
           | Some msg \<Rightarrow> ([Close], s\<lparr>tasks := (tasks s)(jobId := None)\<rparr>))
      | _ \<Rightarrow> ([], s))"
| "exec (Sweep now) s = ([], sweep now s)"

text \<open>\<open>randomUUID()\<close> returns an identifier that it has not returned before.\<close>

fun fresh :: "event \<Rightarrow> Server \<Rightarrow> bool" where
  "fresh (Submit body_url jobId now) s = (jobId \<notin> set (issued s))"
| "fresh e s = True"

inductive reachable :: "Server \<Rightarrow> bool" where
  reachable_initial: "reachable initial"
| reachable_exec: "reachable s \<Longrightarrow> fresh e s \<Longrightarrow> reachable (snd (exec e s))"

text \<open>The invariant of the reachable states, in five parts.\<close>

definition job_wf :: "Job \<Rightarrow> bool" where
  "job_wf job \<longleftrightarrow>
     (result job \<noteq> None \<longleftrightarrow> status job = COMPLETED)
     \<and> (error job \<noteq> None \<longleftrightarrow> status job = FAILED)
     \<and> (completedAt job \<noteq> None \<longleftrightarrow> status job = COMPLETED \<or> status job = FAILED)"

definition heap_wf :: "Server \<Rightarrow> bool" where
  "heap_wf s \<longleftrightarrow> (\<forall>r < length (heap s). job_wf (heap s ! r))"

definition ids_issued :: "Server \<Rightarrow> bool" where
  "ids_issued s \<longleftrightarrow> (\<forall>r < length (heap s). job_id (heap s ! r) \<in> set (issued s))"

definition ids_inj :: "Server \<Rightarrow> bool" where
  "ids_inj s \<longleftrightarrow>
     (\<forall>r < length (heap s). \<forall>r' < length (heap s).
        job_id (heap s ! r) = job_id (heap s ! r') \<longrightarrow> r = r')"

definition store_ok :: "Server \<Rightarrow> bool" where
  "store_ok s \<longleftrightarrow>
     (\<forall>jobId r. map_of (jobStore s) jobId = Some r
        \<longrightarrow> r < length (heap s) \<and> job_id (heap s ! r) = jobId)"

fun task_ok :: "Server \<Rightarrow> string \<Rightarrow> task option \<Rightarrow> bool" where
  "task_ok s jobId None = True"
| "task_ok s jobId (Some (Called u)) =
     (\<forall>r < length (heap s). job_id (heap s ! r) = jobId \<longrightarrow> status (heap s ! r) = PENDING)"
| "task_ok s jobId (Some (Extracting u r)) =
     (r < length (heap s) \<and> job_id (heap s ! r) = jobId
      \<and> status (heap s ! r) = PROCESSING \<and> startedAt (heap s ! r) \<noteq> None)"
| "task_ok s jobId (Some (Closing r closing)) =
     (r < length (heap s) \<and> job_id (heap s ! r) = jobId)"

definition tasks_ok :: "Server \<Rightarrow> bool" where
  "tasks_ok s \<longleftrightarrow> (\<forall>jobId. task_ok s jobId (tasks s jobId))"

definition invariant :: "Server \<Rightarrow> bool" where
  "invariant s \<longleftrightarrow> heap_wf s \<and> ids_issued s \<and> ids_inj s \<and> store_ok s \<and> tasks_ok s"

text \<open>
  \<open>completedAt\<close> is only ever written from \<open>Date.now()\<close>, the number of
  milliseconds since the first of January 1970, which is not 0 on a clock set
  to any later time.  \<open>stamped\<close> says that no record has the completion
  timestamp 0, and \<open>clock_nonzero\<close> that the clock reading of an event that
  writes the timestamp is not 0.
\<close>

definition stamped :: "Server \<Rightarrow> bool" where
  "stamped s \<longleftrightarrow> (\<forall>r < length (heap s). completedAt (heap s ! r) \<noteq> Some 0)"

fun clock_nonzero :: "event \<Rightarrow> bool" where
  "clock_nonzero (Extracted jobId pup now) = (now \<noteq> 0)"
| "clock_nonzero e = True"

subsection \<open>Concrete states for evaluation\<close>

definition sample_puppeteer :: Puppeteer where
  "sample_puppeteer =
     \<lparr>launch = None, newPage = None, setUserAgent = None, setRequestInterception = None,
      goto = Inr (Some \<lparr>ok = True, status_code = 200\<rparr>), evaluate = Inr sample_data,
      close = None\<rparr>"

definition sample_job :: Job where
  "sample_job =
     \<lparr>job_id = ''job-1'', url = ''https://example.com'', status = COMPLETED,
      submittedAt = 1000, startedAt = Some 1000, completedAt = Some 5000,
      result = Some sample_data, error = None\<rparr>"

definition sample_server :: "int option \<Rightarrow> Server" where
  "sample_server fin =
     \<lparr>heap = [sample_job\<lparr>completedAt := fin\<rparr>], jobStore = [(''job-1'', 0)],
      tasks = (\<lambda>jobId. None), issued = [''job-1'']\<rparr>"

text \<open>
  One job from submission to the end of \<open>processJob\<close>: the states after each
  of the four events.
\<close>

definition run1 :: Server where
  "run1 = snd (exec (Submit (Some ''https://example.com'') ''job-1'' 1000) initial)"

definition run2 :: Server where
  "run2 = snd (exec (Start ''job-1'' 1001) run1)"

definition run3 :: Server where
  "run3 = snd (exec (Extracted ''job-1'' sample_puppeteer 2500) run2)"

definition run4 :: Server where
  "run4 = snd (exec (Closed ''job-1'') run3)"

section \<open>The plain-fetch variant of the server (\<open>POST /api/crawl\<close>)\<close>

text \<open>
  The handler of the earlier server.  \<open>new URL(url)\<close> is the parameter
  \<open>hostname\<close> (\<open>None\<close> where the constructor throws); \<open>fetch\<close> is what the
  request for the page does; \<open>parseHtml\<close>, which works by regular expressions,
  is a parameter.  The handler returns the URLs it fetched and its reply.
\<close>

datatype fetched =
    FetchRejected string
  | FetchResponse bool nat string string

datatype 'd crawl_reply =
    Reply400 string
  | ReplyUpstream nat string
  | Reply200 string nat 'd
  | Reply500 string

definition crawl ::
  "(string \<Rightarrow> string option) \<Rightarrow> (string \<Rightarrow> fetched) \<Rightarrow> (string \<Rightarrow> 'd) \<Rightarrow> string option
     \<Rightarrow> string list \<times> 'd crawl_reply" where
  "crawl hostname fetch parseHtml body_url =
     (case body_url of
        None \<Rightarrow> ([], Reply400 ''URL is required'')
      | Some u \<Rightarrow>
          if u = [] then ([], Reply400 ''URL is required'')
          else if hostname u = None then ([], Reply400 ''Invalid URL format'')
          else
            (case fetch u of
               FetchRejected message \<Rightarrow> ([u], Reply500 message)
             | FetchResponse response_ok response_status statusText html \<Rightarrow>
                 if \<not> response_ok
                 then ([u], ReplyUpstream response_status (''Failed to fetch page: '' @ statusText))
                 else ([u], Reply200 u response_status (parseHtml html))))"

section \<open>The audit assembler (\<open>crawlWebsite\<close> in \<open>services/crawlerService.ts\<close>)\<close>

definition POLLING_INTERVAL_MS :: nat where
  "POLLING_INTERVAL_MS = 2000"

definition MAX_POLLING_ATTEMPTS :: nat where
  "MAX_POLLING_ATTEMPTS = 30"

text \<open>
  The job API as the client sees it.  The result of a job is typed \<open>any\<close>:
  it is absent or falsy (\<open>None\<close>), or a payload on which \<open>processRealData\<close>
  throws (\<open>Malformed\<close>, with the message), or extracted data.

  A request to \<open>fetch\<close> rejects (a network failure), or resolves to a response
  that is not \<open>ok\<close>, or to an \<open>ok\<close> response whose \<open>json()\<close> rejects or gives a
  value.
\<close>

datatype payload =
    Malformed string
  | WellFormed ExtractedData

record JobResponse =
  response_id :: string
  response_status :: JobStatus
  response_result :: "payload option"
  response_error :: "string option"

datatype 'a response =
    NetworkFailure string
  | NotOk string
  | BadJson string
  | Json 'a

text \<open>How a run of the polling loop ends.\<close>

datatype loop_exit =
    Completed payload
  | Thrown string

text \<open>
  The polling loop.  \<open>polls\<close> gives the response to each request, in order;
  \<open>n\<close> counts the requests made and \<open>attempts\<close> is the loop's counter.  The
  loop need not end, so it runs on fuel: one unit for each test of the loop
  condition, and \<open>None\<close> when the fuel runs out.  A result comes with the
  number of requests made.
\<close>

fun pollLoop :: "nat \<Rightarrow> (nat \<Rightarrow> JobResponse response) \<Rightarrow> nat \<Rightarrow> nat \<Rightarrow> (loop_exit \<times> nat) option" where
  "pollLoop 0 polls n attempts = None"
| "pollLoop (Suc fuel) polls n attempts =
     (if attempts < MAX_POLLING_ATTEMPTS then
        (case polls n of
           NetworkFailure message \<Rightarrow> Some (Thrown message, Suc n)
         | NotOk statusText \<Rightarrow> pollLoop fuel polls (Suc n) attempts
         | BadJson message \<Rightarrow> Some (Thrown message, Suc n)
         | Json job \<Rightarrow>
             (case (response_status job, response_result job) of
                (COMPLETED, Some res) \<Rightarrow> Some (Completed res, Suc n)
              | (FAILED, _) \<Rightarrow>
                  Some (Thrown (case response_error job of
                                  None \<Rightarrow> ''Crawler job failed on server''
                                | Some message \<Rightarrow>
                                    if message = [] then ''Crawler job failed on server''
                                    else message),
                        Suc n)
              | _ \<Rightarrow> pollLoop fuel polls (Suc n) (Suc attempts)))
      else Some (Thrown ''Crawl timed out after 60 seconds'', n))"

text \<open>
  What \<open>crawlWebsite\<close> gives its caller: the audit, whether it is the simulated
  one, the number of status requests made and the milliseconds spent in
  \<open>sleep\<close> and in the fallback's timer.
\<close>

record crawl_result =
  audit :: WebsiteAudit
  simulated :: bool
  requests :: nat
  waited_ms :: nat

text \<open>
  The \<open>try\<close> block: \<open>Inl\<close> is an error thrown inside it, with the requests made
  until then.
\<close>

definition crawlWebsite_try ::
  "nat \<Rightarrow> Platform \<Rightarrow> ustring \<Rightarrow> ustring \<Rightarrow> string response
     \<Rightarrow> (nat \<Rightarrow> JobResponse response) \<Rightarrow> ustring \<Rightarrow> ((string \<times> nat) + crawl_result) option" where
  "crawlWebsite_try fuel P uuid isoNow submitResponse polls u =
     (case submitResponse of
        NetworkFailure message \<Rightarrow> Some (Inl (message, 0))
      | NotOk statusText \<Rightarrow> Some (Inl (''Job Submission Failed: '' @ statusText, 0))
      | BadJson message \<Rightarrow> Some (Inl (message, 0))
      | Json jobId \<Rightarrow>
          (case pollLoop fuel polls 0 0 of
             None \<Rightarrow> None
           | Some (Thrown message, n) \<Rightarrow> Some (Inl (message, n))
           | Some (Completed (Malformed message), n) \<Rightarrow> Some (Inl (message, n))
           | Some (Completed (WellFormed data), n) \<Rightarrow>
               Some (Inr \<lparr>audit = processRealData P uuid isoNow u data,
                          simulated = False, requests = n,
                          waited_ms = n * POLLING_INTERVAL_MS\<rparr>)))"

text \<open>
  \<open>crawlWebsite\<close>: the \<open>try\<close> block, and the \<open>catch\<close> block that answers any
  error with the mock audit after two seconds.  The result is \<open>None\<close> when the
  fuel runs out, \<open>Some (Inl message)\<close> when the promise rejects and
  \<open>Some (Inr r)\<close> when it resolves.
\<close>

definition crawlWebsite ::
  "nat \<Rightarrow> Platform \<Rightarrow> ustring \<Rightarrow> ustring \<Rightarrow> string response
     \<Rightarrow> (nat \<Rightarrow> JobResponse response) \<Rightarrow> ustring \<Rightarrow> (string + crawl_result) option" where
  "crawlWebsite fuel P uuid isoNow submitResponse polls u =
     (case crawlWebsite_try fuel P uuid isoNow submitResponse polls u of
        None \<Rightarrow> None
      | Some (Inr r) \<Rightarrow> Some (Inr r)
      | Some (Inl (message, n)) \<Rightarrow>
          Some (Inr \<lparr>audit = generateMockAudit P uuid isoNow u,
                     simulated = True, requests = n,
                     waited_ms = n * POLLING_INTERVAL_MS + 2000\<rparr>))"

subsection \<open>Concrete job APIs for evaluation\<close>

definition always_not_ok :: "nat \<Rightarrow> JobResponse response" where
  "always_not_ok n = NotOk ''Not Found''"

definition always_processing :: "nat \<Rightarrow> JobResponse response" where
  "always_processing n =
     Json \<lparr>response_id = ''job-1'', response_status = PROCESSING,
           response_result = None, response_error = None\<rparr>"

definition bad_url_puppeteer :: Puppeteer where
  "bad_url_puppeteer =
     sample_puppeteer
       \<lparr>goto := Inl ''Protocol error (Page.navigate): Cannot navigate to invalid URL''\<rparr>"

definition no_fetch :: "string \<Rightarrow> fetched" where
  "no_fetch u = FetchRejected ''fetch failed''"

definition no_parse :: "string \<Rightarrow> unit" where
  "no_parse html = ()"

text \<open>
  A response that the loop counts: an \<open>ok\<close> response with a job that is
  neither failed nor completed with a result.
\<close>

definition counted :: "JobResponse response \<Rightarrow> bool" where
  "counted p =
     (case p of
        Json job \<Rightarrow>
          response_status job \<noteq> FAILED
          \<and> (response_status job = COMPLETED \<longrightarrow> response_result job = None)
      | _ \<Rightarrow> False)"

section \<open>Properties of the scoring engine\<close>

text \<open>
  Claim C5, as the code has it.  The desktop performance score of
  \<open>processRealData\<close> is 100, less 20 when the load time exceeds 2.5 seconds, less
  a further 30 when it exceeds 4 seconds, less a further 20 when it exceeds 6
  seconds, then floored at 10.  The three penalties add up to 70, so the floor is
  never reached: the score is one of 100, 80, 50 and 30.  Load times of 1500,
  3000, 5000 and 10000 milliseconds give 100, 80, 50 and 30.  The mobile score
  is the desktop score less 15, with no floor of its own, and is never below 15.
\<close>

theorem performance_score_real_data:
  "desktop (pageSpeed (technical (processRealData P uuid isoNow u data))) =
     max 10 (100 - (if real_of_int (loadTime data) / 1000 > 2.5 then 20 else 0)
                 - (if real_of_int (loadTime data) / 1000 > 4.0 then 30 else 0)
                 - (if real_of_int (loadTime data) / 1000 > 6.0 then 20 else 0))
   \<and> desktop (pageSpeed (technical (processRealData P uuid isoNow u data)))
       \<in> {100, 80, 50, 30}
   \<and> mobile (pageSpeed (technical (processRealData P uuid isoNow u data))) =
       desktop (pageSpeed (technical (processRealData P uuid isoNow u data))) - 15
   \<and> mobile (pageSpeed (technical (processRealData P uuid isoNow u data))) \<ge> 15
   \<and> desktop (pageSpeed (technical
         (processRealData P uuid isoNow u (data\<lparr>loadTime := 1500\<rparr>)))) = 100
   \<and> desktop (pageSpeed (technical
         (processRealData P uuid isoNow u (data\<lparr>loadTime := 3000\<rparr>)))) = 80
   \<and> desktop (pageSpeed (technical
         (processRealData P uuid isoNow u (data\<lparr>loadTime := 5000\<rparr>)))) = 50
   \<and> desktop (pageSpeed (technical
         (processRealData P uuid isoNow u (data\<lparr>loadTime := 10000\<rparr>)))) = 30"
  by (simp add: processRealData_def Let_def)

theorem performance_score_real_data_witness:
  "desktop (pageSpeed (technical
     (processRealData sample_platform (js ''a1'') (js ''2024-01-01T00:00:00.000Z'')
        (js ''https://example.com'') (sample_data\<lparr>loadTime := 4500\<rparr>)))) = 50
   \<and> mobile (pageSpeed (technical
     (processRealData sample_platform (js ''a1'') (js ''2024-01-01T00:00:00.000Z'')
        (js ''https://example.com'') (sample_data\<lparr>loadTime := 4500\<rparr>)))) = 35"
  using performance_score_real_data
          [of sample_platform "js ''a1''" "js ''2024-01-01T00:00:00.000Z''"
              "js ''https://example.com''" "sample_data\<lparr>loadTime := 4500\<rparr>"]
  by simp

text \<open>
  The claim as the specification words it gives 10 for a load time of 10000
  milliseconds; the code gives 30.
\<close>

theorem performance_score_10000_counterexample:
  "desktop (pageSpeed (technical
     (processRealData sample_platform (js ''a1'') (js ''2024-01-01T00:00:00.000Z'')
        (js ''https://example.com'') (sample_data\<lparr>loadTime := 10000\<rparr>)))) \<noteq> 10"
  by (simp add: processRealData_def Let_def)

text \<open>
  Claim C4.  For every content and keyword, strings of UTF-16 code units, and
  whatever the platform's \<open>toLowerCase\<close> is: on the empty string the
  meta-description analyzer returns score 0 and one recommendation, and reports
  neither keyword nor call to action (the other checks are not run).  On any
  other content the score is 100, less 20 for fewer than 120 code units, less
  10 for more than 165, less 30 when the keyword is not empty and its lower
  case does not occur in the lower case of the content, less 30 when no
  call-to-action word occurs in the lower case of the content, clamped below at
  0; and there is one recommendation for each rule that fired.  A content of 50
  characters without the keyword and without a call-to-action word scores 20;
  one of 140 characters with the keyword and the word "learn" scores 100 and has
  no recommendation.
\<close>

theorem analyzeMetaDescription_rubric:
  "(c = [] \<longrightarrow>
      score (analyzeMetaDescription P c kw) = 0
      \<and> length (recommendations (analyzeMetaDescription P c kw)) = 1
      \<and> hasKeyword (analyzeMetaDescription P c kw) = Some False
      \<and> hasCTA (analyzeMetaDescription P c kw) = Some False)
   \<and> (c \<noteq> [] \<longrightarrow>
      score (analyzeMetaDescription P c kw) =
        max 0 (100
               - (if length c < 120 then 20 else 0)
               - (if length c > 165 then 10 else 0)
               - (if kw \<noteq> [] \<and> \<not> str_includes (toLowerCase P c) (toLowerCase P kw)
                  then 30 else 0)
               - (if \<not> list_ex (str_includes (toLowerCase P c)) ctaWords then 30 else 0))
      \<and> length (recommendations (analyzeMetaDescription P c kw)) =
          (if length c < 120 then 1 else 0)
          + (if length c > 165 then 1 else 0)
          + (if kw \<noteq> [] \<and> \<not> str_includes (toLowerCase P c) (toLowerCase P kw)
             then 1 else 0)
          + (if \<not> list_ex (str_includes (toLowerCase P c)) ctaWords then 1 else 0))
   \<and> (length c = 50 \<and> kw \<noteq> [] \<and> \<not> str_includes (toLowerCase P c) (toLowerCase P kw)
        \<and> \<not> list_ex (str_includes (toLowerCase P c)) ctaWords \<longrightarrow>
      score (analyzeMetaDescription P c kw) = 20)
   \<and> (length c = 140 \<and> str_includes (toLowerCase P c) (toLowerCase P kw)
        \<and> str_includes (toLowerCase P c) (js ''learn'') \<longrightarrow>
      score (analyzeMetaDescription P c kw) = 100
      \<and> recommendations (analyzeMetaDescription P c kw) = [])"
  by (auto simp add: analyzeMetaDescription_def Let_def ctaWords_def)

theorem analyzeMetaDescription_rubric_witness:
  "(length sample_short = 50 \<and> js ''example'' \<noteq> []
    \<and> \<not> str_includes (toLowerCase sample_platform sample_short)
            (toLowerCase sample_platform (js ''example''))
    \<and> \<not> list_ex (str_includes (toLowerCase sample_platform sample_short)) ctaWords
    \<and> score (analyzeMetaDescription sample_platform sample_short (js ''example'')) = 20)
   \<and> (length sample_long = 140
    \<and> str_includes (toLowerCase sample_platform sample_long)
          (toLowerCase sample_platform (js ''example''))
    \<and> str_includes (toLowerCase sample_platform sample_long) (js ''learn'')
    \<and> score (analyzeMetaDescription sample_platform sample_long (js ''example'')) = 100
    \<and> recommendations (analyzeMetaDescription sample_platform sample_long (js ''example''))
        = [])
   \<and> score (analyzeMetaDescription sample_platform [] (js ''example'')) = 0
   \<and> length (recommendations (analyzeMetaDescription sample_platform [] (js ''example'')))
       = 1"
proof -
  have s1: "length sample_short = 50"
    by (simp add: sample_short_def js_def)
  have s2: "\<not> str_includes (toLowerCase sample_platform sample_short)
                  (toLowerCase sample_platform (js ''example''))"
    by code_simp
  have s3: "\<not> list_ex (str_includes (toLowerCase sample_platform sample_short)) ctaWords"
    by code_simp
  have l1: "length sample_long = 140"
    by (simp add: sample_long_def js_def)
  have l2: "str_includes (toLowerCase sample_platform sample_long)
                (toLowerCase sample_platform (js ''example''))"
    by code_simp
  have l3: "str_includes (toLowerCase sample_platform sample_long) (js ''learn'')"
    by code_simp
  show ?thesis
    using s1 s2 s3 l1 l2 l3
      analyzeMetaDescription_rubric
        [where c = sample_short and kw = "js ''example''" and P = sample_platform]
      analyzeMetaDescription_rubric
        [where c = sample_long and kw = "js ''example''" and P = sample_platform]
      analyzeMetaDescription_rubric
        [where c = "[]" and kw = "js ''example''" and P = sample_platform]
    by (simp add: js_def)
qed

text \<open>
  With a \<open>toLowerCase\<close> that folds the accented capitals, the keyword
  \<open>caf\<close>\<open>0xE9\<close> is found in a content that spells it \<open>CAF\<close>\<open>0xC9\<close>: the score
  is 80 and the one recommendation is the one about the length.
\<close>

lemma analyzeMetaDescription_accented:
  "hasKeyword (analyzeMetaDescription latin1_platform sample_accented sample_accented_keyword)
     = Some True"
  "hasCTA (analyzeMetaDescription latin1_platform sample_accented sample_accented_keyword)
     = Some True"
  "score (analyzeMetaDescription latin1_platform sample_accented sample_accented_keyword) = 80"
  "length (recommendations
     (analyzeMetaDescription latin1_platform sample_accented sample_accented_keyword)) = 1"
proof -
  have n: "sample_accented \<noteq> []" and l: "length sample_accented = 21"
    by (simp_all add: sample_accented_def js_def)
  have k: "sample_accented_keyword \<noteq> []"
    by (simp add: sample_accented_keyword_def)
  have h: "str_includes (toLowerCase latin1_platform sample_accented)
             (toLowerCase latin1_platform sample_accented_keyword)"
    by code_simp
  have c: "list_ex (str_includes (toLowerCase latin1_platform sample_accented)) ctaWords"
    by code_simp
  show "hasKeyword (analyzeMetaDescription latin1_platform sample_accented
          sample_accented_keyword) = Some True"
    using n h by (simp add: analyzeMetaDescription_def Let_def split: prod.splits)
  show "hasCTA (analyzeMetaDescription latin1_platform sample_accented
          sample_accented_keyword) = Some True"
    using n c by (simp add: analyzeMetaDescription_def Let_def split: prod.splits)
  show "score (analyzeMetaDescription latin1_platform sample_accented
          sample_accented_keyword) = 80"
    using n l k h c by (simp add: analyzeMetaDescription_def Let_def)
  show "length (recommendations
          (analyzeMetaDescription latin1_platform sample_accented sample_accented_keyword)) = 1"
    using n l k h c by (simp add: analyzeMetaDescription_def Let_def)
qed

text \<open>
  Claim C9, as the code has it.  For a fixed URL and fixed extracted data, two
  runs of \<open>processRealData\<close> produce audits that agree in every field except
  \<open>id\<close> and \<open>auditDate\<close>: the technical and on-page records with all their
  sub-scores, flags and recommendation lists, the aggregate scores, the AI
  record and the URL are the same.  The identity is whatever
  \<open>crypto.randomUUID()\<close> returned in that run and the date whatever the clock
  read.
\<close>

theorem processRealData_deterministic_except_id_date:
  "technical (processRealData P uuid1 iso1 u data)
     = technical (processRealData P uuid2 iso2 u data)
   \<and> onPage (processRealData P uuid1 iso1 u data)
     = onPage (processRealData P uuid2 iso2 u data)
   \<and> scores (processRealData P uuid1 iso1 u data)
     = scores (processRealData P uuid2 iso2 u data)
   \<and> aiAnalysis (processRealData P uuid1 iso1 u data)
     = aiAnalysis (processRealData P uuid2 iso2 u data)
   \<and> websiteUrl (processRealData P uuid1 iso1 u data)
     = websiteUrl (processRealData P uuid2 iso2 u data)
   \<and> processRealData P uuid1 iso1 u data
     = (processRealData P uuid2 iso2 u data)\<lparr>audit_id := uuid1, auditDate := iso1\<rparr>
   \<and> audit_id (processRealData P uuid1 iso1 u data) = uuid1
   \<and> auditDate (processRealData P uuid1 iso1 u data) = iso1"
  by (simp add: processRealData_def Let_def)

theorem processRealData_deterministic_except_id_date_witness:
  "processRealData sample_platform (js ''a1'') (js ''2024-01-01T00:00:00.000Z'')
       (js ''https://example.com'') sample_data
     = (processRealData sample_platform (js ''b2'') (js ''2024-01-01T00:00:05.000Z'')
          (js ''https://example.com'') sample_data)
         \<lparr>audit_id := js ''a1'', auditDate := js ''2024-01-01T00:00:00.000Z''\<rparr>"
  using processRealData_deterministic_except_id_date
          [of sample_platform "js ''a1''" "js ''2024-01-01T00:00:00.000Z''"
              "js ''https://example.com''" sample_data "js ''b2''"
              "js ''2024-01-01T00:00:05.000Z''"]
  by simp

text \<open>
  The claim as the specification words it asks for the same identity and
  timestamps; two runs on the same input differ in both.
\<close>

theorem processRealData_identity_counterexample:
  "processRealData sample_platform (js ''a1'') (js ''2024-01-01T00:00:00.000Z'')
       (js ''https://example.com'') sample_data
     \<noteq> processRealData sample_platform (js ''b2'') (js ''2024-01-01T00:00:05.000Z'')
          (js ''https://example.com'') sample_data"
proof
  assume "processRealData sample_platform (js ''a1'') (js ''2024-01-01T00:00:00.000Z'')
            (js ''https://example.com'') sample_data
          = processRealData sample_platform (js ''b2'') (js ''2024-01-01T00:00:05.000Z'')
              (js ''https://example.com'') sample_data"
  then have "audit_id (processRealData sample_platform (js ''a1'') (js ''2024-01-01T00:00:00.000Z'')
                         (js ''https://example.com'') sample_data)
             = audit_id (processRealData sample_platform (js ''b2'') (js ''2024-01-01T00:00:05.000Z'')
                           (js ''https://example.com'') sample_data)"
    by simp
  then show False
    by (simp add: processRealData_def Let_def js_def)
qed

section \<open>Properties of the job engine\<close>

lemma sweep_loop_filter:
  "sweep_loop now h entries st =
     filter (\<lambda>p. \<not> (\<exists>r. (fst p, r) \<in> set entries \<and> expired now (h ! r))) st"
proof (induction entries arbitrary: st)
  case Nil
  show ?case by simp
next
  case (Cons e entries)
  obtain jobId r where e: "e = (jobId, r)" by (cases e)
  show ?case
  proof (cases "expired now (h ! r)")
    case True
    have "sweep_loop now h (e # entries) st = sweep_loop now h entries (AList.delete jobId st)"
      using True e by simp
    also have "\<dots> = filter (\<lambda>p. \<not> (\<exists>r. (fst p, r) \<in> set entries \<and> expired now (h ! r)))
                        (filter (\<lambda>p. fst p \<noteq> jobId) st)"
      by (auto simp add: Cons.IH AList.delete_eq case_prod_unfold intro!: filter_cong)
    also have "\<dots> = filter (\<lambda>p. \<not> (\<exists>r. (fst p, r) \<in> set (e # entries)
                                          \<and> expired now (h ! r))) st"
      using True e by (auto intro!: filter_cong)
    finally show ?thesis .
  next
    case False
    have "sweep_loop now h (e # entries) st = sweep_loop now h entries st"
      using False e by simp
    also have "\<dots> = filter (\<lambda>p. \<not> (\<exists>r. (fst p, r) \<in> set (e # entries)
                                          \<and> expired now (h ! r))) st"
      using False e by (auto simp add: Cons.IH intro!: filter_cong)
    finally show ?thesis .
  qed
qed

lemma sweep_store_filter:
  assumes "distinct (map fst (jobStore s))"
  shows "jobStore (sweep now s) =
           filter (\<lambda>p. \<not> expired now (heap s ! snd p)) (jobStore s)"
proof -
  have "(\<exists>r. (fst p, r) \<in> set (jobStore s) \<and> expired now (heap s ! r))
          \<longleftrightarrow> expired now (heap s ! snd p)"
    if "p \<in> set (jobStore s)" for p
  proof
    assume "\<exists>r. (fst p, r) \<in> set (jobStore s) \<and> expired now (heap s ! r)"
    then obtain r where r: "(fst p, r) \<in> set (jobStore s)" "expired now (heap s ! r)"
      by auto
    have "(fst p, snd p) \<in> set (jobStore s)"
      using that by simp
    then have "r = snd p"
      using assms r(1) by (meson eq_key_imp_eq_value)
    then show "expired now (heap s ! snd p)"
      using r(2) by simp
  next
    assume "expired now (heap s ! snd p)"
    then show "\<exists>r. (fst p, r) \<in> set (jobStore s) \<and> expired now (heap s ! r)"
      using that by (intro exI [of _ "snd p"]) simp
  qed
  then show ?thesis
    by (simp add: sweep_def sweep_loop_filter cong: filter_cong)
qed

lemma map_of_filter_snd:
  assumes "distinct (map fst xs)"
  shows "map_of (filter (\<lambda>p. P (snd p)) xs) k =
           (case map_of xs k of None \<Rightarrow> None | Some v \<Rightarrow> if P v then Some v else None)"
  using assms
proof (induction xs)
  case Nil
  show ?case by simp
next
  case (Cons x xs)
  obtain k' v' where x: "x = (k', v')" by (cases x)
  have notin: "map_of xs k' = None"
    using Cons.prems x by (simp add: map_of_eq_None_iff)
  have notin': "map_of (filter (\<lambda>p. P (snd p)) xs) k' = None"
    using Cons.prems x by (auto simp add: map_of_eq_None_iff)
  show ?case
    using Cons x notin notin' by (auto split: option.splits)
qed

lemma getJob_sweep:
  assumes "distinct (map fst (jobStore s))"
  shows "getJob (sweep now s) jobId =
           (case getJob s jobId of
              None \<Rightarrow> None
            | Some job \<Rightarrow> if expired now job then None else Some job)"
proof -
  have h: "heap (sweep now s) = heap s"
    by (simp add: sweep_def)
  show ?thesis
    unfolding getJob_def h sweep_store_filter [OF assms]
    using map_of_filter_snd [OF assms, of "\<lambda>r. \<not> expired now (heap s ! r)" jobId]
    by (simp split: option.splits)
qed

text \<open>
  Claim C10.  When the job store has no record for the identifier, a call of
  \<open>processJob\<close> makes no call to the browser and leaves the server state, and
  so every entry of the job store, as it was.
\<close>

theorem processJob_unknown_job_noop:
  "map_of (jobStore s) jobId = None \<Longrightarrow> processJob pup t1 t2 jobId u s = ([], s)"
  by (simp add: processJob_def processJob_start_def)

theorem processJob_unknown_job_noop_witness:
  "map_of (jobStore (sample_server None)) ''job-2'' = None
   \<and> processJob sample_puppeteer 10 20 ''job-2'' ''https://example.org'' (sample_server None)
       = ([], sample_server None)"
proof -
  have n: "map_of (jobStore (sample_server None)) ''job-2'' = None"
    by (simp add: sample_server_def)
  show ?thesis
    using n processJob_unknown_job_noop [OF n] by simp
qed
subsection \<open>The invariant\<close>

lemma map_of_filter_key:
  "map_of (filter (\<lambda>p. Q (fst p)) xs) k = (if Q k then map_of xs k else None)"
  by (induction xs) auto

lemma map_of_sweep_loop:
  assumes "map_of (sweep_loop now h entries st) jobId = Some r"
  shows "map_of st jobId = Some r"
proof -
  let ?Q = "\<lambda>k. \<not> (\<exists>r. (k, r) \<in> set entries \<and> expired now (h ! r))"
  have "sweep_loop now h entries st = filter (\<lambda>p. ?Q (fst p)) st"
    by (rule sweep_loop_filter)
  then have "map_of (sweep_loop now h entries st) jobId
               = (if ?Q jobId then map_of st jobId else None)"
    using map_of_filter_key [of ?Q st jobId] by simp
  then show ?thesis
    using assms by (auto split: if_splits)
qed

lemma invariant_initial: "invariant initial"
  by (simp add: invariant_def initial_def heap_wf_def ids_issued_def ids_inj_def store_ok_def
        tasks_ok_def)

lemma invariant_submit:
  assumes "invariant s" and "jobId \<notin> set (issued s)"
  shows "invariant (submit body_url jobId now s)"
proof (cases "body_url = None \<or> body_url = Some []")
  case True
  then show ?thesis
    using assms(1) by (auto simp add: submit_def)
next
  case False
  then obtain u where u: "body_url = Some u" "u \<noteq> []"
    by auto
  define job where
    "job = \<lparr>job_id = jobId, url = u, status = PENDING, submittedAt = now,
            startedAt = None, completedAt = None, result = None, error = None\<rparr>"
  have s': "submit body_url jobId now s =
              s\<lparr>heap := heap s @ [job],
                jobStore := AList.update jobId (length (heap s)) (jobStore s),
                tasks := (tasks s)(jobId := Some (Called u)),
                issued := jobId # issued s\<rparr>"
    using u by (simp add: submit_def job_def)
  have old: "heap_wf s" "ids_issued s" "ids_inj s" "store_ok s" "tasks_ok s"
    using assms(1) by (simp_all add: invariant_def)
  have fresh_id: "job_id (heap s ! r) \<noteq> jobId" if "r < length (heap s)" for r
    using old(2) assms(2) that by (auto simp add: ids_issued_def)
  have 1: "heap_wf (submit body_url jobId now s)"
    using old(1) by (auto simp add: s' heap_wf_def nth_append job_wf_def job_def)
  have 2: "ids_issued (submit body_url jobId now s)"
    using old(2) by (auto simp add: s' ids_issued_def nth_append job_def)
  have 3: "ids_inj (submit body_url jobId now s)"
    using old(3) fresh_id
    by (auto simp add: s' ids_inj_def nth_append job_def less_Suc_eq)
  have 4: "store_ok (submit body_url jobId now s)"
    unfolding store_ok_def
  proof (intro allI impI)
    fix k r
    assume "map_of (jobStore (submit body_url jobId now s)) k = Some r"
    then have "k = jobId \<and> r = length (heap s) \<or> map_of (jobStore s) k = Some r"
      by (auto simp add: s' update_conv' split: if_splits)
    then show "r < length (heap (submit body_url jobId now s))
               \<and> job_id (heap (submit body_url jobId now s) ! r) = k"
      using old(4) by (auto simp add: s' store_ok_def nth_append job_def)
  qed
  have 5: "task_ok (submit body_url jobId now s) k (tasks (submit body_url jobId now s) k)" for k
  proof (cases "k = jobId")
    case True
    then show ?thesis
      using fresh_id by (auto simp add: s' nth_append job_def less_Suc_eq)
  next
    case False
    have ok: "task_ok s k (tasks s k)"
      using old(5) by (simp add: tasks_ok_def)
    show ?thesis
    proof (cases "tasks s k")
      case None
      then show ?thesis
        using False by (simp add: s')
    next
      case (Some t)
      then show ?thesis
        using ok False fresh_id
        by (cases t) (auto simp add: s' nth_append job_def less_Suc_eq)
    qed
  qed
  show ?thesis
    using 1 2 3 4 5 by (simp add: invariant_def tasks_ok_def)
qed
lemma task_ok_other:
  assumes ok: "task_ok s k t"
    and h: "heap s' = (heap s)[r := j']"
    and r: "r < length (heap s)"
    and id: "job_id j' = job_id (heap s ! r)"
    and other: "job_id (heap s ! r) \<noteq> k"
  shows "task_ok s' k t"
proof -
  have len: "length (heap s') = length (heap s)"
    by (simp add: h)
  have same: "heap s' ! x = heap s ! x" if "job_id (heap s ! x) = k \<or> job_id (heap s' ! x) = k"
    and "x < length (heap s)" for x
    using that id other by (cases "x = r") (auto simp add: h)
  show ?thesis
  proof (cases t)
    case None
    then show ?thesis by simp
  next
    case (Some a)
    show ?thesis
    proof (cases a)
      case (Called u)
      have "status (heap s' ! x) = PENDING"
        if x: "x < length (heap s')" "job_id (heap s' ! x) = k" for x
      proof -
        have eq: "heap s' ! x = heap s ! x"
          using same [of x] x by (simp add: len)
        show ?thesis
          using ok Some Called x eq by (simp add: len)
      qed
      then show ?thesis
        using Some Called by simp
    next
      case (Extracting u x)
      then show ?thesis
        using ok Some same [of x] by (simp add: len)
    next
      case (Closing x c)
      then show ?thesis
        using ok Some same [of x] by (simp add: len)
    qed
  qed
qed

lemma task_ok_same_heap:
  assumes "task_ok s k t" and "heap s' = heap s"
  shows "task_ok s' k t"
proof (cases t)
  case None
  then show ?thesis by simp
next
  case (Some a)
  then show ?thesis
    using assms by (cases a) auto
qed

text \<open>
  Writing fields of the record at \<open>r\<close>, other than its identifier, and storing
  the reference again under its own identifier keeps the first four parts of
  the invariant.
\<close>

lemma invariant_heap_write:
  assumes inv: "invariant s"
    and r: "r < length (heap s)"
    and id: "job_id j' = job_id (heap s ! r)"
    and wf: "job_wf j'"
    and h: "heap s' = (heap s)[r := j']"
    and i: "issued s' = issued s"
    and st: "jobStore s' = jobStore s \<or> jobStore s' = AList.update (job_id j') r (jobStore s)"
  shows "heap_wf s'" and "ids_issued s'" and "ids_inj s'" and "store_ok s'"
proof -
  have old: "heap_wf s" "ids_issued s" "ids_inj s" "store_ok s"
    using inv by (simp_all add: invariant_def)
  have len: "length (heap s') = length (heap s)"
    by (simp add: h)
  have ids: "job_id (heap s' ! x) = job_id (heap s ! x)" if "x < length (heap s)" for x
    using that id by (cases "x = r") (simp_all add: h)
  have wfs: "job_wf (heap s' ! x)" if "x < length (heap s)" for x
    using that wf old(1) by (cases "x = r") (simp_all add: h heap_wf_def)
  show "heap_wf s'"
    using wfs by (simp add: heap_wf_def len)
  show "ids_issued s'"
    using old(2) ids by (simp add: ids_issued_def len i)
  show "ids_inj s'"
    using old(3) ids by (simp add: ids_inj_def len)
  show "store_ok s'"
    unfolding store_ok_def
  proof (intro allI impI)
    fix k v
    assume "map_of (jobStore s') k = Some v"
    then have "map_of (jobStore s) k = Some v \<or> (k = job_id j' \<and> v = r)"
      using st by (auto simp add: update_conv' split: if_splits)
    then have "v < length (heap s) \<and> job_id (heap s ! v) = k"
      using old(4) r id by (auto simp add: store_ok_def)
    then show "v < length (heap s') \<and> job_id (heap s' ! v) = k"
      using ids [of v] by (simp add: len)
  qed
qed

lemma invariant_store_only:
  assumes inv: "invariant s"
    and h: "heap s' = heap s"
    and i: "issued s' = issued s"
    and st: "\<And>k v. map_of (jobStore s') k = Some v \<Longrightarrow>
                map_of (jobStore s) k = Some v
                \<or> (v < length (heap s) \<and> job_id (heap s ! v) = k)"
  shows "heap_wf s'" and "ids_issued s'" and "ids_inj s'" and "store_ok s'"
proof -
  have old: "heap_wf s" "ids_issued s" "ids_inj s" "store_ok s"
    using inv by (simp_all add: invariant_def)
  show "heap_wf s'"
    using old(1) by (simp add: heap_wf_def h)
  show "ids_issued s'"
    using old(2) by (simp add: ids_issued_def h i)
  show "ids_inj s'"
    using old(3) by (simp add: ids_inj_def h)
  show "store_ok s'"
    unfolding store_ok_def
  proof (intro allI impI)
    fix k v
    assume "map_of (jobStore s') k = Some v"
    from st [OF this] show "v < length (heap s') \<and> job_id (heap s' ! v) = k"
      using old(4) by (auto simp add: store_ok_def h)
  qed
qed

lemma invariant_sweep:
  assumes "invariant s"
  shows "invariant (sweep now s)"
proof -
  have a: "heap_wf (sweep now s)" "ids_issued (sweep now s)" "ids_inj (sweep now s)"
    "store_ok (sweep now s)"
    by (rule invariant_store_only [OF assms];
        auto simp add: sweep_def dest: map_of_sweep_loop)+
  have "task_ok (sweep now s) k (tasks (sweep now s) k)" for k
    using assms task_ok_same_heap [of s k "tasks s k" "sweep now s"]
    by (simp add: invariant_def tasks_ok_def sweep_def)
  then show ?thesis
    using a by (simp add: invariant_def tasks_ok_def)
qed

lemma invariant_start:
  assumes inv: "invariant s"
  shows "invariant (snd (exec (Start jobId now) s))"
proof (cases "\<exists>u. tasks s jobId = Some (Called u)")
  case False
  then have "snd (exec (Start jobId now) s) = s"
    by (auto split: option.splits task.splits)
  then show ?thesis
    using inv by simp
next
  case True
  then obtain u where u: "tasks s jobId = Some (Called u)"
    by auto
  have tk: "task_ok s k (tasks s k)" for k
    using inv by (simp add: invariant_def tasks_ok_def)
  show ?thesis
  proof (cases "map_of (jobStore s) jobId")
    case None
    define s' where "s' = s\<lparr>tasks := (tasks s)(jobId := None)\<rparr>"
    have e: "snd (exec (Start jobId now) s) = s'"
      using u None by (simp add: processJob_start_def s'_def)
    have a: "heap_wf s'" "ids_issued s'" "ids_inj s'" "store_ok s'"
      by (rule invariant_store_only [OF inv]; simp add: s'_def)+
    have "task_ok s' k (tasks s' k)" for k
      using tk [of k] task_ok_same_heap [of s k "tasks s k" s']
      by (simp add: s'_def)
    then show ?thesis
      unfolding e using a by (simp add: invariant_def tasks_ok_def)
  next
    case (Some r)
    define j' where "j' = (heap s ! r)\<lparr>status := PROCESSING, startedAt := Some now\<rparr>"
    define s' where
      "s' = s\<lparr>heap := (heap s)[r := j'], jobStore := AList.update jobId r (jobStore s),
               tasks := (tasks s)(jobId := Some (Extracting u r))\<rparr>"
    have e: "snd (exec (Start jobId now) s) = s'"
      using u Some by (simp add: processJob_start_def s'_def j'_def)
    have r: "r < length (heap s)" and id: "job_id (heap s ! r) = jobId"
      using inv Some by (auto simp add: invariant_def store_ok_def)
    have pending: "status (heap s ! r) = PENDING"
      using tk [of jobId] u r id by simp
    have "job_wf (heap s ! r)"
      using inv r by (simp add: invariant_def heap_wf_def)
    then have wf: "job_wf j'"
      using pending by (simp add: job_wf_def j'_def)
    have a: "heap_wf s'" "ids_issued s'" "ids_inj s'" "store_ok s'"
      by (rule invariant_heap_write [OF inv r _ wf, of s'];
          simp add: s'_def j'_def id)+
    have "task_ok s' k (tasks s' k)" for k
    proof (cases "k = jobId")
      case True
      then show ?thesis
        using r id by (simp add: s'_def j'_def)
    next
      case False
      then show ?thesis
        using tk [of k] task_ok_other [of s k "tasks s k" s' r j'] r id
        by (simp add: s'_def j'_def)
    qed
    then show ?thesis
      unfolding e using a by (simp add: invariant_def tasks_ok_def)
  qed
qed
lemma settle_heap:
  "heap (settle r outcome now s) =
     (heap s)[r := (case outcome of
                      Inr extractedData \<Rightarrow>
                        (heap s ! r)\<lparr>status := COMPLETED, completedAt := Some now,
                                      result := Some extractedData\<rparr>
                    | Inl message \<Rightarrow>
                        (heap s ! r)\<lparr>status := FAILED, error := Some message,
                                      completedAt := Some now\<rparr>)]"
  and settle_rest:
  "jobStore (settle r outcome now s) = jobStore s"
  "tasks (settle r outcome now s) = tasks s"
  "issued (settle r outcome now s) = issued s"
  by (simp_all add: settle_def split: sum.splits)

lemma invariant_extracted:
  assumes inv: "invariant s"
  shows "invariant (snd (exec (Extracted jobId pup now) s))"
proof (cases "\<exists>u r. tasks s jobId = Some (Extracting u r)")
  case False
  then have "snd (exec (Extracted jobId pup now) s) = s"
    by (auto split: option.splits task.splits)
  then show ?thesis
    using inv by simp
next
  case True
  then obtain u r where t: "tasks s jobId = Some (Extracting u r)"
    by auto
  obtain calls browser outcome where x: "extraction pup u = (calls, browser, outcome)"
    by (cases "extraction pup u") auto
  have tk: "task_ok s k (tasks s k)" for k
    using inv by (simp add: invariant_def tasks_ok_def)
  have r: "r < length (heap s)" and id: "job_id (heap s ! r) = jobId"
    and processing: "status (heap s ! r) = PROCESSING"
    using tk [of jobId] t by simp_all
  define j' where
    "j' = (case outcome of
             Inr extractedData \<Rightarrow>
               (heap s ! r)\<lparr>status := COMPLETED, completedAt := Some now,
                             result := Some extractedData\<rparr>
           | Inl message \<Rightarrow>
               (heap s ! r)\<lparr>status := FAILED, error := Some message,
                             completedAt := Some now\<rparr>)"
  have id': "job_id j' = job_id (heap s ! r)"
    by (simp add: j'_def split: sum.splits)
  have "job_wf (heap s ! r)"
    using inv r by (simp add: invariant_def heap_wf_def)
  then have wf: "job_wf j'"
    using processing by (simp add: job_wf_def j'_def split: sum.splits)
  define s' where "s' = snd (exec (Extracted jobId pup now) s)"
  have h: "heap s' = (heap s)[r := j']"
    and i: "issued s' = issued s"
    and st: "jobStore s' = jobStore s \<or> jobStore s' = AList.update (job_id j') r (jobStore s)"
    and ts: "tasks s' = (tasks s)(jobId := (if browser then Some (Closing r (close pup)) else None))"
    using t x
    by (simp_all add: s'_def Let_def settle_heap settle_rest store_back_def j'_def [symmetric]
          id' id)
  have a: "heap_wf s'" "ids_issued s'" "ids_inj s'" "store_ok s'"
    using invariant_heap_write [OF inv r id' wf h i st] by simp_all
  have "task_ok s' k (tasks s' k)" for k
  proof (cases "k = jobId")
    case True
    then show ?thesis
      using r id id' by (simp add: ts h)
  next
    case False
    then show ?thesis
      using tk [of k] task_ok_other [OF _ h r id', of k "tasks s k"] id
      by (simp add: ts)
  qed
  then show ?thesis
    unfolding s'_def [symmetric] using a by (simp add: invariant_def tasks_ok_def)
qed

lemma invariant_closed:
  assumes inv: "invariant s"
  shows "invariant (snd (exec (Closed jobId) s))"
proof (cases "\<exists>r c. tasks s jobId = Some (Closing r c)")
  case False
  then have "snd (exec (Closed jobId) s) = s"
    by (auto split: option.splits task.splits)
  then show ?thesis
    using inv by simp
next
  case True
  then obtain r c where t: "tasks s jobId = Some (Closing r c)"
    by auto
  have tk: "task_ok s k (tasks s k)" for k
    using inv by (simp add: invariant_def tasks_ok_def)
  have r: "r < length (heap s)" and id: "job_id (heap s ! r) = jobId"
    using tk [of jobId] t by simp_all
  define s' where "s' = snd (exec (Closed jobId) s)"
  have h: "heap s' = heap s"
    and i: "issued s' = issued s"
    and st: "jobStore s' = jobStore s \<or> jobStore s' = AList.update jobId r (jobStore s)"
    and ts: "tasks s' = (tasks s)(jobId := None)"
    using t by (simp_all add: s'_def store_back_def split: option.splits)
  have a: "heap_wf s'" "ids_issued s'" "ids_inj s'" "store_ok s'"
  proof -
    have "map_of (jobStore s) k = Some v \<or> (v < length (heap s) \<and> job_id (heap s ! v) = k)"
      if "map_of (jobStore s') k = Some v" for k v
      using that st r id by (auto simp add: update_conv' split: if_splits)
    from invariant_store_only [OF inv h i this]
    show "heap_wf s'" "ids_issued s'" "ids_inj s'" "store_ok s'"
      by simp_all
  qed
  have "task_ok s' k (tasks s' k)" for k
    using tk [of k] task_ok_same_heap [OF _ h, of k "tasks s k"]
    by (simp add: ts)
  then show ?thesis
    unfolding s'_def [symmetric] using a by (simp add: invariant_def tasks_ok_def)
qed

lemma invariant_exec:
  assumes "invariant s" and "fresh e s"
  shows "invariant (snd (exec e s))"
proof (cases e)
  case (Submit body_url jobId now)
  then show ?thesis
    using assms invariant_submit [of s jobId body_url now] by simp
next
  case (Start jobId now)
  then show ?thesis
    using assms(1) invariant_start by simp
next
  case (Extracted jobId pup now)
  then show ?thesis
    using assms(1) invariant_extracted by simp
next
  case (Closed jobId)
  then show ?thesis
    using assms(1) invariant_closed by simp
next
  case (Sweep now)
  then show ?thesis
    using assms(1) invariant_sweep [of s now] by simp
qed

lemma reachable_invariant: "reachable s \<Longrightarrow> invariant s"
  by (induction rule: reachable.induct) (simp_all add: invariant_initial invariant_exec)
subsection \<open>What one event does to the records\<close>

lemma exec_heap_cases:
  assumes inv: "invariant s"
  shows "heap (snd (exec e s)) = heap s
         \<or> (\<exists>job. heap (snd (exec e s)) = heap s @ [job] \<and> status job = PENDING
                  \<and> result job = None \<and> error job = None)
         \<or> (\<exists>r j'. r < length (heap s) \<and> heap (snd (exec e s)) = (heap s)[r := j']
                  \<and> job_id j' = job_id (heap s ! r)
                  \<and> (status (heap s ! r) = PENDING \<and> status j' = PROCESSING
                        \<and> startedAt j' \<noteq> None
                      \<or> status (heap s ! r) = PROCESSING
                        \<and> (status j' = COMPLETED \<or> status j' = FAILED)))"
proof (cases e)
  case (Submit body_url jobId now)
  then show ?thesis
    by (auto simp add: submit_def Let_def split: option.splits)
next
  case (Start jobId now)
  show ?thesis
  proof (cases "tasks s jobId")
    case None
    then show ?thesis
      using Start by simp
  next
    case (Some t)
    show ?thesis
    proof (cases t)
      case (Called u)
      show ?thesis
      proof (cases "map_of (jobStore s) jobId")
        case None
        then show ?thesis
          using Start Some Called by (simp add: processJob_start_def)
      next
        case (Some r)
        have r: "r < length (heap s)" and id: "job_id (heap s ! r) = jobId"
          using inv Some by (auto simp add: invariant_def store_ok_def)
        have "task_ok s jobId (tasks s jobId)"
          using inv by (simp add: invariant_def tasks_ok_def)
        then have pending: "status (heap s ! r) = PENDING"
          using \<open>tasks s jobId = Some t\<close> Called r id by simp
        let ?j = "(heap s ! r)\<lparr>status := PROCESSING, startedAt := Some now\<rparr>"
        have "heap (snd (exec e s)) = (heap s)[r := ?j]"
          using Start \<open>tasks s jobId = Some t\<close> Called Some by (simp add: processJob_start_def)
        then have "r < length (heap s) \<and> heap (snd (exec e s)) = (heap s)[r := ?j]
                   \<and> job_id ?j = job_id (heap s ! r)
                   \<and> (status (heap s ! r) = PENDING \<and> status ?j = PROCESSING
                         \<and> startedAt ?j \<noteq> None
                       \<or> status (heap s ! r) = PROCESSING
                         \<and> (status ?j = COMPLETED \<or> status ?j = FAILED))"
          using r pending by simp
        then show ?thesis
          by blast
      qed
    next
      case (Extracting u r)
      then show ?thesis
        using Start Some by simp
    next
      case (Closing r c)
      then show ?thesis
        using Start Some by simp
    qed
  qed
next
  case (Extracted jobId pup now)
  show ?thesis
  proof (cases "tasks s jobId")
    case None
    then show ?thesis
      using Extracted by simp
  next
    case (Some t)
    show ?thesis
    proof (cases t)
      case (Called u)
      then show ?thesis
        using Extracted Some by simp
    next
      case (Extracting u r)
      have "task_ok s jobId (tasks s jobId)"
        using inv by (simp add: invariant_def tasks_ok_def)
      then have r: "r < length (heap s)" and processing: "status (heap s ! r) = PROCESSING"
        using Some Extracting by simp_all
      obtain calls browser outcome where x: "extraction pup u = (calls, browser, outcome)"
        by (cases "extraction pup u") auto
      let ?j = "case outcome of
                  Inr extractedData \<Rightarrow>
                    (heap s ! r)\<lparr>status := COMPLETED, completedAt := Some now,
                                  result := Some extractedData\<rparr>
                | Inl message \<Rightarrow>
                    (heap s ! r)\<lparr>status := FAILED, error := Some message,
                                  completedAt := Some now\<rparr>"
      have "heap (snd (exec e s)) = heap (settle r outcome now s)"
        using Extracted Some Extracting x by (simp add: Let_def store_back_def)
      then have "r < length (heap s) \<and> heap (snd (exec e s)) = (heap s)[r := ?j]
                 \<and> job_id ?j = job_id (heap s ! r)
                 \<and> (status (heap s ! r) = PENDING \<and> status ?j = PROCESSING
                       \<and> startedAt ?j \<noteq> None
                     \<or> status (heap s ! r) = PROCESSING
                       \<and> (status ?j = COMPLETED \<or> status ?j = FAILED))"
        using r processing by (cases outcome) (simp_all add: settle_heap)
      then show ?thesis
        by blast
    next
      case (Closing r c)
      then show ?thesis
        using Extracted Some by simp
    qed
  qed
next
  case (Closed jobId)
  then have "heap (snd (exec e s)) = heap s"
    by (auto simp add: store_back_def split: option.splits task.splits)
  then show ?thesis by simp
next
  case (Sweep now)
  then show ?thesis
    by (simp add: sweep_def)
qed

lemma extraction_no_Close: "Close \<notin> set (fst (extraction pup u))"
  by (simp add: extraction_def split: option.splits sum.splits)

lemma exec_calls:
  assumes "c \<in> set (fst (exec e s))" and "c \<noteq> Close"
  shows "\<exists>jobId pup now u r. e = Extracted jobId pup now \<and> tasks s jobId = Some (Extracting u r)"
proof (cases e)
  case (Submit body_url jobId now)
  then show ?thesis using assms by simp
next
  case (Start jobId now)
  then show ?thesis
    using assms by (auto split: option.splits task.splits prod.splits)
next
  case (Extracted jobId pup now)
  then show ?thesis
    using assms by (auto split: option.splits task.splits)
next
  case (Closed jobId)
  then show ?thesis
    using assms by (auto split: option.splits task.splits)
next
  case (Sweep now)
  then show ?thesis using assms by simp
qed
lemma reachable_runs:
  "reachable run1" "reachable run2" "reachable run3" "reachable run4"
proof -
  show 1: "reachable run1"
    unfolding run1_def
    by (rule reachable_exec [OF reachable_initial]) (simp add: initial_def)
  show 2: "reachable run2"
    unfolding run2_def by (rule reachable_exec [OF 1]) simp
  show 3: "reachable run3"
    unfolding run3_def by (rule reachable_exec [OF 2]) simp
  show "reachable run4"
    unfolding run4_def by (rule reachable_exec [OF 3]) simp
qed

lemma run1_eval:
  "run1 = \<lparr>heap = [\<lparr>job_id = ''job-1'', url = ''https://example.com'', status = PENDING,
                     submittedAt = 1000, startedAt = None, completedAt = None,
                     result = None, error = None\<rparr>],
           jobStore = [(''job-1'', 0)],
           tasks = (\<lambda>jobId. None)(''job-1'' := Some (Called ''https://example.com'')),
           issued = [''job-1'']\<rparr>"
  by (simp add: run1_def submit_def initial_def)

lemma run2_eval:
  "run2 = \<lparr>heap = [\<lparr>job_id = ''job-1'', url = ''https://example.com'', status = PROCESSING,
                     submittedAt = 1000, startedAt = Some 1001, completedAt = None,
                     result = None, error = None\<rparr>],
           jobStore = [(''job-1'', 0)],
           tasks = (\<lambda>jobId. None)(''job-1'' := Some (Extracting ''https://example.com'' 0)),
           issued = [''job-1'']\<rparr>"
  by (simp add: run2_def run1_eval processJob_start_def)

lemma run3_eval:
  "fst (exec (Extracted ''job-1'' sample_puppeteer 2500) run2)
     = [Launch, NewPage, SetUserAgent, SetRequestInterception, Goto ''https://example.com'',
        Evaluate]"
  "run3 = \<lparr>heap = [\<lparr>job_id = ''job-1'', url = ''https://example.com'', status = COMPLETED,
                     submittedAt = 1000, startedAt = Some 1001, completedAt = Some 2500,
                     result = Some sample_data, error = None\<rparr>],
           jobStore = [(''job-1'', 0)],
           tasks = (\<lambda>jobId. None)(''job-1'' := Some (Closing 0 None)),
           issued = [''job-1'']\<rparr>"
  by (simp_all add: run3_def run2_eval extraction_def sample_puppeteer_def settle_def)

lemma run4_eval:
  "run4 = \<lparr>heap = [\<lparr>job_id = ''job-1'', url = ''https://example.com'', status = COMPLETED,
                     submittedAt = 1000, startedAt = Some 1001, completedAt = Some 2500,
                     result = Some sample_data, error = None\<rparr>],
           jobStore = [(''job-1'', 0)],
           tasks = (\<lambda>jobId. None),
           issued = [''job-1'']\<rparr>"
  by (simp add: run4_def run3_eval store_back_def)

text \<open>
  Claim C2.  In every reachable state of the server, a record that the job
  store holds has a result exactly when its status is \<open>COMPLETED\<close> and an
  error exactly when its status is \<open>FAILED\<close>: a pending (or processing) job has
  neither, a completed job has a result and no error, a failed job has an error
  and no result.  The record that a submission creates is \<open>PENDING\<close> with both
  fields null.
\<close>

theorem job_result_error_invariant:
  "reachable s \<Longrightarrow>
     (\<forall>job. getJob s jobId = Some job \<longrightarrow>
        (result job \<noteq> None \<longleftrightarrow> status job = COMPLETED)
        \<and> (error job \<noteq> None \<longleftrightarrow> status job = FAILED)
        \<and> (status job = PENDING \<longrightarrow> result job = None \<and> error job = None)
        \<and> (status job = COMPLETED \<longrightarrow> result job \<noteq> None \<and> error job = None)
        \<and> (status job = FAILED \<longrightarrow> error job \<noteq> None \<and> result job = None))
     \<and> (\<forall>u now. u \<noteq> [] \<longrightarrow>
          getJob (snd (exec (Submit (Some u) jobId now) s)) jobId
            = Some \<lparr>job_id = jobId, url = u, status = PENDING, submittedAt = now,
                    startedAt = None, completedAt = None, result = None, error = None\<rparr>)"
proof -
  assume "reachable s"
  then have inv: "invariant s"
    by (rule reachable_invariant)
  have a: "(result job \<noteq> None \<longleftrightarrow> status job = COMPLETED)
           \<and> (error job \<noteq> None \<longleftrightarrow> status job = FAILED)"
    if g: "getJob s jobId = Some job" for job
  proof -
    obtain r where r: "map_of (jobStore s) jobId = Some r" "job = heap s ! r"
      using g by (auto simp add: getJob_def)
    have "r < length (heap s)"
      using inv r(1) by (simp add: invariant_def store_ok_def)
    then have "job_wf job"
      using inv r(2) by (simp add: invariant_def heap_wf_def)
    then show ?thesis
      by (simp add: job_wf_def)
  qed
  have b: "getJob (snd (exec (Submit (Some u) jobId now) s)) jobId
            = Some \<lparr>job_id = jobId, url = u, status = PENDING, submittedAt = now,
                    startedAt = None, completedAt = None, result = None, error = None\<rparr>"
    if "u \<noteq> []" for u now
    using that by (simp add: getJob_def submit_def update_conv')
  show ?thesis
    using a b by auto
qed

theorem job_result_error_invariant_witness:
  "reachable run4
   \<and> getJob run4 ''job-1''
       = Some \<lparr>job_id = ''job-1'', url = ''https://example.com'', status = COMPLETED,
               submittedAt = 1000, startedAt = Some 1001, completedAt = Some 2500,
               result = Some sample_data, error = None\<rparr>
   \<and> (\<exists>job. getJob run4 ''job-1'' = Some job \<and> status job = COMPLETED
              \<and> result job \<noteq> None \<and> error job = None)"
proof -
  have g: "getJob run4 ''job-1''
             = Some \<lparr>job_id = ''job-1'', url = ''https://example.com'', status = COMPLETED,
                     submittedAt = 1000, startedAt = Some 1001, completedAt = Some 2500,
                     result = Some sample_data, error = None\<rparr>"
    by (simp add: getJob_def run4_eval)
  show ?thesis
    using reachable_runs(4) g
      job_result_error_invariant [OF reachable_runs(4), of "''job-1''"]
    by simp
qed
text \<open>
  Claim C1.  Along every event of the server, from every reachable state:
  \<^item> the status of every record that exists stays as it is, or goes from
    \<open>PENDING\<close> to \<open>PROCESSING\<close> (with a start timestamp), or goes from
    \<open>PROCESSING\<close> to \<open>COMPLETED\<close> or \<open>FAILED\<close>; so a terminal status is never
    overwritten, and \<open>COMPLETED\<close> and \<open>FAILED\<close> are only ever set on a
    \<open>PROCESSING\<close> record;
  \<^item> no record disappears and every new record is \<open>PENDING\<close>;
  \<^item> the same holds for the record that the job store holds under an
    identifier before and after the event;
  \<^item> every call to the browser other than \<open>close\<close> is made for a job whose
    record is \<open>PROCESSING\<close> and has its start timestamp.
\<close>

theorem job_status_transitions:
  "reachable s \<Longrightarrow> fresh e s \<Longrightarrow>
     (\<forall>r < length (heap s).
        status (heap (snd (exec e s)) ! r) = status (heap s ! r)
        \<or> status (heap s ! r) = PENDING
          \<and> status (heap (snd (exec e s)) ! r) = PROCESSING
          \<and> startedAt (heap (snd (exec e s)) ! r) \<noteq> None
        \<or> status (heap s ! r) = PROCESSING
          \<and> (status (heap (snd (exec e s)) ! r) = COMPLETED
              \<or> status (heap (snd (exec e s)) ! r) = FAILED))
     \<and> (\<forall>r < length (heap s).
          status (heap s ! r) = COMPLETED \<or> status (heap s ! r) = FAILED \<longrightarrow>
            status (heap (snd (exec e s)) ! r) = status (heap s ! r))
     \<and> length (heap s) \<le> length (heap (snd (exec e s)))
     \<and> (\<forall>r < length (heap (snd (exec e s))).
          length (heap s) \<le> r \<longrightarrow> status (heap (snd (exec e s)) ! r) = PENDING)
     \<and> (\<forall>jobId job job'.
          getJob s jobId = Some job \<and> getJob (snd (exec e s)) jobId = Some job' \<longrightarrow>
            status job' = status job
            \<or> status job = PENDING \<and> status job' = PROCESSING \<and> startedAt job' \<noteq> None
            \<or> status job = PROCESSING \<and> (status job' = COMPLETED \<or> status job' = FAILED))
     \<and> (\<forall>c \<in> set (fst (exec e s)). c \<noteq> Close \<longrightarrow>
          (\<exists>jobId pup now u r.
             e = Extracted jobId pup now \<and> tasks s jobId = Some (Extracting u r)
             \<and> r < length (heap s) \<and> job_id (heap s ! r) = jobId
             \<and> status (heap s ! r) = PROCESSING \<and> startedAt (heap s ! r) \<noteq> None))"
proof -
  assume reach: "reachable s" and fr: "fresh e s"
  let ?s' = "snd (exec e s)"
  have inv: "invariant s"
    using reach by (rule reachable_invariant)
  have inv': "invariant ?s'"
    using inv fr by (rule invariant_exec)
  have cases3:
    "heap ?s' = heap s
     \<or> (\<exists>job. heap ?s' = heap s @ [job] \<and> status job = PENDING)
     \<or> (\<exists>r j'. r < length (heap s) \<and> heap ?s' = (heap s)[r := j']
              \<and> job_id j' = job_id (heap s ! r)
              \<and> (status (heap s ! r) = PENDING \<and> status j' = PROCESSING
                    \<and> startedAt j' \<noteq> None
                  \<or> status (heap s ! r) = PROCESSING
                    \<and> (status j' = COMPLETED \<or> status j' = FAILED)))"
    using exec_heap_cases [OF inv, of e] by blast
  have len: "length (heap s) \<le> length (heap ?s')"
    using cases3 by auto
  have old: "status (heap ?s' ! r) = status (heap s ! r)
             \<or> status (heap s ! r) = PENDING \<and> status (heap ?s' ! r) = PROCESSING
               \<and> startedAt (heap ?s' ! r) \<noteq> None
             \<or> status (heap s ! r) = PROCESSING
               \<and> (status (heap ?s' ! r) = COMPLETED \<or> status (heap ?s' ! r) = FAILED)"
    and ids: "job_id (heap ?s' ! r) = job_id (heap s ! r)"
    if r: "r < length (heap s)" for r
  proof -
    consider (same) "heap ?s' = heap s"
      | (new) job where "heap ?s' = heap s @ [job]"
      | (upd) x j' where "x < length (heap s)" "heap ?s' = (heap s)[x := j']"
          "job_id j' = job_id (heap s ! x)"
          "status (heap s ! x) = PENDING \<and> status j' = PROCESSING \<and> startedAt j' \<noteq> None
           \<or> status (heap s ! x) = PROCESSING \<and> (status j' = COMPLETED \<or> status j' = FAILED)"
      using cases3 by blast
    then have "(status (heap ?s' ! r) = status (heap s ! r)
             \<or> status (heap s ! r) = PENDING \<and> status (heap ?s' ! r) = PROCESSING
               \<and> startedAt (heap ?s' ! r) \<noteq> None
             \<or> status (heap s ! r) = PROCESSING
               \<and> (status (heap ?s' ! r) = COMPLETED \<or> status (heap ?s' ! r) = FAILED))
            \<and> job_id (heap ?s' ! r) = job_id (heap s ! r)"
    proof cases
      case same
      then show ?thesis by simp
    next
      case new
      then show ?thesis
        using r by (simp add: nth_append)
    next
      case upd
      show ?thesis
      proof (cases "r = x")
        case True
        then show ?thesis
          using upd by simp
      next
        case False
        then show ?thesis
          using upd(2) by simp
      qed
    qed
    then show "status (heap ?s' ! r) = status (heap s ! r)
             \<or> status (heap s ! r) = PENDING \<and> status (heap ?s' ! r) = PROCESSING
               \<and> startedAt (heap ?s' ! r) \<noteq> None
             \<or> status (heap s ! r) = PROCESSING
               \<and> (status (heap ?s' ! r) = COMPLETED \<or> status (heap ?s' ! r) = FAILED)"
      and "job_id (heap ?s' ! r) = job_id (heap s ! r)"
      by simp_all
  qed
  have fresh_pending: "status (heap ?s' ! r) = PENDING"
    if "r < length (heap ?s')" "length (heap s) \<le> r" for r
    using cases3 that by (auto simp add: nth_append)
  have store: "status job' = status job
            \<or> status job = PENDING \<and> status job' = PROCESSING \<and> startedAt job' \<noteq> None
            \<or> status job = PROCESSING \<and> (status job' = COMPLETED \<or> status job' = FAILED)"
    if g: "getJob s jobId = Some job" and g': "getJob ?s' jobId = Some job'"
    for jobId job job'
  proof -
    obtain r where r: "map_of (jobStore s) jobId = Some r" "job = heap s ! r"
      using g by (auto simp add: getJob_def)
    obtain r' where r': "map_of (jobStore ?s') jobId = Some r'" "job' = heap ?s' ! r'"
      using g' by (auto simp add: getJob_def)
    have a: "r < length (heap s)" "job_id (heap s ! r) = jobId"
      using inv r(1) by (auto simp add: invariant_def store_ok_def)
    have b: "r' < length (heap ?s')" "job_id (heap ?s' ! r') = jobId"
      using inv' r'(1) by (auto simp add: invariant_def store_ok_def)
    have "r < length (heap ?s')" "job_id (heap ?s' ! r) = jobId"
      using a len ids [of r] by simp_all
    then have "r = r'"
      using inv' b by (simp add: invariant_def ids_inj_def)
    then show ?thesis
      using old [OF a(1)] r(2) r'(2) by simp
  qed
  have calls: "\<exists>jobId pup now u r.
             e = Extracted jobId pup now \<and> tasks s jobId = Some (Extracting u r)
             \<and> r < length (heap s) \<and> job_id (heap s ! r) = jobId
             \<and> status (heap s ! r) = PROCESSING \<and> startedAt (heap s ! r) \<noteq> None"
    if c: "c \<in> set (fst (exec e s))" "c \<noteq> Close" for c
  proof -
    obtain jobId pup now u r where
      x: "e = Extracted jobId pup now" "tasks s jobId = Some (Extracting u r)"
      using exec_calls [OF c] by blast
    have "task_ok s jobId (tasks s jobId)"
      using inv by (simp add: invariant_def tasks_ok_def)
    then show ?thesis
      using x by simp
  qed
  have terminal: "status (heap ?s' ! r) = status (heap s ! r)"
    if "r < length (heap s)" "status (heap s ! r) = COMPLETED \<or> status (heap s ! r) = FAILED"
    for r
    using old [OF that(1)] that(2) by auto
  have c1: "\<forall>r < length (heap s).
        status (heap ?s' ! r) = status (heap s ! r)
        \<or> status (heap s ! r) = PENDING
          \<and> status (heap ?s' ! r) = PROCESSING
          \<and> startedAt (heap ?s' ! r) \<noteq> None
        \<or> status (heap s ! r) = PROCESSING
          \<and> (status (heap ?s' ! r) = COMPLETED
              \<or> status (heap ?s' ! r) = FAILED)"
    using old by (intro allI impI)
  have c2: "\<forall>r < length (heap s).
          status (heap s ! r) = COMPLETED \<or> status (heap s ! r) = FAILED \<longrightarrow>
            status (heap ?s' ! r) = status (heap s ! r)"
    using terminal by (intro allI impI)
  have c3: "\<forall>r < length (heap ?s').
          length (heap s) \<le> r \<longrightarrow> status (heap ?s' ! r) = PENDING"
    using fresh_pending by (intro allI impI)
  have c4: "\<forall>jobId job job'.
          getJob s jobId = Some job \<and> getJob ?s' jobId = Some job' \<longrightarrow>
            status job' = status job
            \<or> status job = PENDING \<and> status job' = PROCESSING \<and> startedAt job' \<noteq> None
            \<or> status job = PROCESSING \<and> (status job' = COMPLETED \<or> status job' = FAILED)"
    using store by (intro allI impI) (elim conjE)
  have c5: "\<forall>c \<in> set (fst (exec e s)). c \<noteq> Close \<longrightarrow>
          (\<exists>jobId pup now u r.
             e = Extracted jobId pup now \<and> tasks s jobId = Some (Extracting u r)
             \<and> r < length (heap s) \<and> job_id (heap s ! r) = jobId
             \<and> status (heap s ! r) = PROCESSING \<and> startedAt (heap s ! r) \<noteq> None)"
    using calls by (intro ballI impI)
  show ?thesis
    by (intro conjI c1 c2 len c3 c4 c5)
qed
theorem job_status_transitions_witness:
  "reachable run1 \<and> fresh (Start ''job-1'' 1001) run1
   \<and> status (heap run1 ! 0) = PENDING
   \<and> status (heap (snd (exec (Start ''job-1'' 1001) run1)) ! 0) = PROCESSING
   \<and> length (heap run1) \<le> length (heap (snd (exec (Start ''job-1'' 1001) run1)))
   \<and> reachable run2 \<and> fresh (Extracted ''job-1'' sample_puppeteer 2500) run2
   \<and> Launch \<in> set (fst (exec (Extracted ''job-1'' sample_puppeteer 2500) run2))
   \<and> status (heap run2 ! 0) = PROCESSING
   \<and> status (heap (snd (exec (Extracted ''job-1'' sample_puppeteer 2500) run2)) ! 0) = COMPLETED
   \<and> length (heap run2)
       \<le> length (heap (snd (exec (Extracted ''job-1'' sample_puppeteer 2500) run2)))"
proof -
  have f1: "fresh (Start ''job-1'' 1001) run1"
    by simp
  have f2: "fresh (Extracted ''job-1'' sample_puppeteer 2500) run2"
    by simp
  have s1: "status (heap run1 ! 0) = PENDING"
    by (simp add: run1_eval)
  have s2: "status (heap run2 ! 0) = PROCESSING"
    by (simp add: run2_eval)
  have s2': "status (heap (snd (exec (Start ''job-1'' 1001) run1)) ! 0) = PROCESSING"
    using s2 by (simp only: run2_def)
  have s3: "status (heap run3 ! 0) = COMPLETED"
    by (simp add: run3_eval)
  have s3': "status (heap (snd (exec (Extracted ''job-1'' sample_puppeteer 2500) run2)) ! 0)
               = COMPLETED"
    using s3 by (simp only: run3_def)
  have c: "Launch \<in> set (fst (exec (Extracted ''job-1'' sample_puppeteer 2500) run2))"
    by (simp only: run3_eval(1)) simp
  have t1: "length (heap run1) \<le> length (heap (snd (exec (Start ''job-1'' 1001) run1)))"
    using job_status_transitions [OF reachable_runs(1) f1] by blast
  have t2: "length (heap run2)
              \<le> length (heap (snd (exec (Extracted ''job-1'' sample_puppeteer 2500) run2)))"
    using job_status_transitions [OF reachable_runs(2) f2] by blast
  show ?thesis
    using reachable_runs(1,2) f1 f2 s1 s2 s2' s3' c t1 t2 by blast
qed

subsection \<open>The retention sweep\<close>

lemma distinct_sweep_loop:
  "distinct (map fst st) \<Longrightarrow> distinct (map fst (sweep_loop now h entries st))"
  by (simp add: sweep_loop_filter distinct_map_filter)

lemma distinct_exec:
  assumes "distinct (map fst (jobStore s))"
  shows "distinct (map fst (jobStore (snd (exec e s))))"
proof (cases e)
  case (Submit body_url jobId now)
  then show ?thesis
    using assms by (auto simp add: submit_def distinct_update split: option.splits)
next
  case (Start jobId now)
  then show ?thesis
    using assms
    by (auto simp add: processJob_start_def distinct_update
          split: option.splits task.splits)
next
  case (Extracted jobId pup now)
  then show ?thesis
    using assms
    by (auto simp add: Let_def settle_rest store_back_def distinct_update
          split: option.splits task.splits prod.splits)
next
  case (Closed jobId)
  then show ?thesis
    using assms
    by (auto simp add: store_back_def distinct_update split: option.splits task.splits)
next
  case (Sweep now)
  then show ?thesis
    using assms by (simp add: sweep_def distinct_sweep_loop)
qed

lemma reachable_distinct: "reachable s \<Longrightarrow> distinct (map fst (jobStore s))"
  by (induction rule: reachable.induct) (simp_all add: initial_def distinct_exec)

lemma sweep_keeps_unfinished:
  assumes "reachable s" and "getJob s jobId = Some job"
    and "status job = PENDING \<or> status job = PROCESSING"
  shows "getJob (sweep now s) jobId = Some job"
proof -
  obtain r where r: "map_of (jobStore s) jobId = Some r" "job = heap s ! r"
    using assms(2) by (auto simp add: getJob_def)
  have inv: "invariant s"
    using assms(1) by (rule reachable_invariant)
  have "r < length (heap s)"
    using inv r(1) by (simp add: invariant_def store_ok_def)
  then have "job_wf job"
    using inv r(2) by (simp add: invariant_def heap_wf_def)
  then have "completedAt job = None"
    using assms(3) by (auto simp add: job_wf_def)
  then have "\<not> expired now job"
    by (simp add: expired_def)
  then show ?thesis
    using getJob_sweep [OF reachable_distinct [OF assms(1)], of now jobId] assms(2)
    by simp
qed

text \<open>
  No record gets the completion timestamp 0 as long as the clock does not read
  0 when a job is settled, and then no entry of the job store of a reachable
  state refers to such a record.
\<close>

lemma stamped_initial: "stamped initial"
  by (simp add: stamped_def initial_def)

lemma stamped_exec:
  assumes "stamped s" and "invariant s" and "clock_nonzero e"
  shows "stamped (snd (exec e s))"
proof (cases e)
  case (Submit body_url jobId now)
  then show ?thesis
    using assms(1)
    by (auto simp add: stamped_def submit_def Let_def nth_append split: option.splits)
next
  case (Start jobId now)
  have "length (heap (snd (exec e s))) = length (heap s)"
    using Start
    by (auto simp add: processJob_start_def split: option.splits task.splits)
  moreover have "completedAt (heap (snd (exec e s)) ! r) = completedAt (heap s ! r)"
    if r: "r < length (heap s)" for r
  proof (cases "\<exists>u x. tasks s jobId = Some (Called u) \<and> map_of (jobStore s) jobId = Some x")
    case False
    then have "heap (snd (exec e s)) = heap s"
      using Start
      by (auto simp add: processJob_start_def split: option.splits task.splits)
    then show ?thesis by simp
  next
    case True
    then obtain u x where "tasks s jobId = Some (Called u)" "map_of (jobStore s) jobId = Some x"
      by auto
    then have "heap (snd (exec e s))
                 = (heap s)[x := (heap s ! x)\<lparr>status := PROCESSING, startedAt := Some now\<rparr>]"
      using Start by (simp add: processJob_start_def)
    then show ?thesis
      using r by (cases "x = r") simp_all
  qed
  ultimately show ?thesis
    using assms(1) by (simp add: stamped_def)
next
  case (Extracted jobId pup now)
  show ?thesis
  proof (cases "\<exists>u r. tasks s jobId = Some (Extracting u r)")
    case False
    then have "snd (exec e s) = s"
      using Extracted by (auto split: option.splits task.splits)
    then show ?thesis
      using assms(1) by simp
  next
    case True
    then obtain u r where t: "tasks s jobId = Some (Extracting u r)"
      by auto
    obtain calls browser outcome where x: "extraction pup u = (calls, browser, outcome)"
      by (cases "extraction pup u") auto
    have h: "heap (snd (exec e s)) = heap (settle r outcome now s)"
      using Extracted t x by (simp add: Let_def store_back_def)
    have "now \<noteq> 0"
      using assms(3) Extracted by simp
    then have "completedAt (heap (settle r outcome now s) ! x) \<noteq> Some 0"
      if "x < length (heap s)" for x
      using that assms(1)
      by (cases outcome; cases "x = r") (simp_all add: settle_heap stamped_def)
    then show ?thesis
      by (simp add: stamped_def h settle_heap)
  qed
next
  case (Closed jobId)
  then have "heap (snd (exec e s)) = heap s"
    by (auto simp add: store_back_def split: option.splits task.splits)
  then show ?thesis
    using assms(1) by (simp add: stamped_def)
next
  case (Sweep now)
  then show ?thesis
    using assms(1) by (simp add: stamped_def sweep_def)
qed

lemma stamped_store:
  assumes "stamped s" and "invariant s" and "p \<in> set (jobStore s)"
    and "distinct (map fst (jobStore s))"
  shows "completedAt (heap s ! snd p) \<noteq> Some 0"
proof -
  have "map_of (jobStore s) (fst p) = Some (snd p)"
    using assms(3,4) by simp
  then have "snd p < length (heap s)"
    using assms(2) by (simp add: invariant_def store_ok_def)
  then show ?thesis
    using assms(1) by (simp add: stamped_def)
qed

text \<open>
  Claim C3.  For a job store whose completion timestamps are readings of the
  clock, none of them the number 0, one tick of the retention sweep at time
  \<open>now\<close> deletes exactly the records whose \<open>completedAt\<close> is set and satisfies
  \<open>now - completedAt > 3600000\<close>; it keeps the other entries in their order
  and changes no record.  A record without \<open>completedAt\<close> is never deleted,
  and in a reachable state of the server these are the \<open>PENDING\<close> and
  \<open>PROCESSING\<close> jobs.  A job completed 61 minutes before \<open>now\<close> is removed and
  one completed 59 minutes before \<open>now\<close> is retained.
\<close>

theorem sweep_removes_exactly_expired:
  "distinct (map fst (jobStore s)) \<Longrightarrow>
   (\<forall>p \<in> set (jobStore s). completedAt (heap s ! snd p) \<noteq> Some 0) \<Longrightarrow>
     jobStore (sweep now s) =
       filter (\<lambda>p. \<not> (\<exists>t. completedAt (heap s ! snd p) = Some t \<and> now - t > 3600000))
         (jobStore s)
     \<and> heap (sweep now s) = heap s
     \<and> getJob (sweep now s) jobId =
         (case getJob s jobId of
            None \<Rightarrow> None
          | Some job \<Rightarrow>
              if (\<exists>t. completedAt job = Some t \<and> now - t > 3600000)
              then None else Some job)
     \<and> (\<forall>job. getJob s jobId = Some job \<and> completedAt job = None
            \<longrightarrow> getJob (sweep now s) jobId = Some job)
     \<and> (\<forall>job. getJob s jobId = Some job \<and> completedAt job = Some (now - 61 * 60 * 1000)
            \<longrightarrow> getJob (sweep now s) jobId = None)
     \<and> (\<forall>job. getJob s jobId = Some job \<and> completedAt job = Some (now - 59 * 60 * 1000)
            \<longrightarrow> getJob (sweep now s) jobId = Some job)
     \<and> (reachable s \<longrightarrow>
          (\<forall>job. getJob s jobId = Some job
                 \<and> (status job = PENDING \<or> status job = PROCESSING)
             \<longrightarrow> getJob (sweep now s) jobId = Some job))"
proof -
  assume d: "distinct (map fst (jobStore s))"
    and z: "\<forall>p \<in> set (jobStore s). completedAt (heap s ! snd p) \<noteq> Some 0"
  have ex: "expired now job \<longleftrightarrow> (\<exists>t. completedAt job = Some t \<and> now - t > 3600000)"
    if "completedAt job \<noteq> Some 0" for job
    using that by (auto simp add: expired_def ONE_HOUR_def split: option.splits)
  have "filter (\<lambda>p. \<not> expired now (heap s ! snd p)) (jobStore s)
          = filter (\<lambda>p. \<not> (\<exists>t. completedAt (heap s ! snd p) = Some t \<and> now - t > 3600000))
              (jobStore s)"
    using z by (intro filter_cong refl) (simp add: ex)
  then have a: "jobStore (sweep now s) =
             filter (\<lambda>p. \<not> (\<exists>t. completedAt (heap s ! snd p) = Some t \<and> now - t > 3600000))
               (jobStore s)"
    using sweep_store_filter [OF d, of now] by simp
  have b: "heap (sweep now s) = heap s"
    by (simp add: sweep_def)
  have nz: "completedAt job \<noteq> Some 0" if g: "getJob s jobId = Some job" for job
  proof -
    obtain r where r: "map_of (jobStore s) jobId = Some r" "job = heap s ! r"
      using g by (auto simp add: getJob_def)
    have "(jobId, r) \<in> set (jobStore s)"
      using r(1) by (rule map_of_SomeD)
    then show ?thesis
      using z r(2) by force
  qed
  have c: "getJob (sweep now s) jobId =
             (case getJob s jobId of
                None \<Rightarrow> None
              | Some job \<Rightarrow>
                  if (\<exists>t. completedAt job = Some t \<and> now - t > 3600000)
                  then None else Some job)"
    using getJob_sweep [OF d, of now jobId] nz by (simp add: ex split: option.splits)
  have e: "getJob (sweep now s) jobId = Some job"
    if "reachable s" "getJob s jobId = Some job"
      "status job = PENDING \<or> status job = PROCESSING" for job
    using that by (rule sweep_keeps_unfinished)
  have "(\<forall>job. getJob s jobId = Some job \<and> completedAt job = None
            \<longrightarrow> getJob (sweep now s) jobId = Some job)
     \<and> (\<forall>job. getJob s jobId = Some job \<and> completedAt job = Some (now - 61 * 60 * 1000)
            \<longrightarrow> getJob (sweep now s) jobId = None)
     \<and> (\<forall>job. getJob s jobId = Some job \<and> completedAt job = Some (now - 59 * 60 * 1000)
            \<longrightarrow> getJob (sweep now s) jobId = Some job)"
    using c by simp
  then show ?thesis
    using a b c e by blast
qed

theorem sweep_removes_exactly_expired_witness:
  "distinct (map fst (jobStore (sample_server (Some 1000))))
   \<and> jobStore (sample_server (Some 1000)) = [(''job-1'', 0)]
   \<and> completedAt (heap (sample_server (Some 1000)) ! 0) = Some 1000
   \<and> getJob (sweep (1000 + 61 * 60 * 1000) (sample_server (Some 1000))) ''job-1'' = None
   \<and> getJob (sweep (1000 + 59 * 60 * 1000) (sample_server (Some 1000))) ''job-1''
       = Some (sample_job\<lparr>completedAt := Some 1000\<rparr>)
   \<and> getJob (sweep (1000 + 61 * 60 * 1000) (sample_server None)) ''job-1''
       = Some (sample_job\<lparr>completedAt := None\<rparr>)
   \<and> distinct (map fst (jobStore run2)) \<and> reachable run2
   \<and> getJob (sweep (1000 + 61 * 60 * 1000) run2) ''job-1'' = getJob run2 ''job-1''"
proof -
  have d2: "distinct (map fst (jobStore run2))"
    by (simp add: run2_eval)
  have z2: "\<forall>p \<in> set (jobStore run2). completedAt (heap run2 ! snd p) \<noteq> Some 0"
    by (simp add: run2_eval)
  have g2: "getJob run2 ''job-1'' = Some (heap run2 ! 0)" "status (heap run2 ! 0) = PROCESSING"
    by (simp_all add: getJob_def run2_eval)
  have "reachable run2 \<longrightarrow>
          (\<forall>job. getJob run2 ''job-1'' = Some job
                 \<and> (status job = PENDING \<or> status job = PROCESSING)
             \<longrightarrow> getJob (sweep (1000 + 61 * 60 * 1000) run2) ''job-1'' = Some job)"
    using sweep_removes_exactly_expired [OF d2 z2, of "1000 + 61 * 60 * 1000" "''job-1''"]
    by blast
  then have k2: "getJob (sweep (1000 + 61 * 60 * 1000) run2) ''job-1'' = getJob run2 ''job-1''"
    using reachable_runs(2) g2 by metis
  have d: "distinct (map fst (jobStore (sample_server fin)))" for fin
    by (simp add: sample_server_def)
  have z: "\<forall>p \<in> set (jobStore (sample_server fin)).
             completedAt (heap (sample_server fin) ! snd p) \<noteq> Some 0"
    if "fin \<noteq> Some 0" for fin
    using that by (simp add: sample_server_def)
  have z1: "\<forall>p \<in> set (jobStore (sample_server (Some 1000))).
              completedAt (heap (sample_server (Some 1000)) ! snd p) \<noteq> Some 0"
    by (rule z) simp
  have z0: "\<forall>p \<in> set (jobStore (sample_server None)).
              completedAt (heap (sample_server None) ! snd p) \<noteq> Some 0"
    by (rule z) simp
  have g: "getJob (sample_server fin) ''job-1'' = Some (sample_job\<lparr>completedAt := fin\<rparr>)"
    for fin
    by (simp add: getJob_def sample_server_def)
  have w1: "getJob (sweep (1000 + 61 * 60 * 1000) (sample_server (Some 1000))) ''job-1'' = None"
    using sweep_removes_exactly_expired [OF d z1, of "1000 + 61 * 60 * 1000" "''job-1''"]
    by (simp add: g)
  have w2: "getJob (sweep (1000 + 59 * 60 * 1000) (sample_server (Some 1000))) ''job-1''
              = Some (sample_job\<lparr>completedAt := Some 1000\<rparr>)"
    using sweep_removes_exactly_expired [OF d z1, of "1000 + 59 * 60 * 1000" "''job-1''"]
    by (simp add: g)
  have w3: "getJob (sweep (1000 + 61 * 60 * 1000) (sample_server None)) ''job-1''
              = Some (sample_job\<lparr>completedAt := None\<rparr>)"
    using sweep_removes_exactly_expired [OF d z0, of "1000 + 61 * 60 * 1000" "''job-1''"]
    by (simp add: g)
  have j: "jobStore (sample_server (Some 1000)) = [(''job-1'', 0)]"
    and t: "completedAt (heap (sample_server (Some 1000)) ! 0) = Some 1000"
    by (simp_all add: sample_server_def)
  show ?thesis
    by (intro conjI d j t w1 w2 w3 d2 reachable_runs(2) k2)
qed

text \<open>
  The three events of one job, run one after the other, do what a whole call of
  \<open>processJob\<close> does: the same browser calls, the same records and the same
  job store.
\<close>

lemma processJob_as_events:
  assumes "tasks s jobId = Some (Called u)"
  shows "fst (processJob pup t1 t2 jobId u s)
           = fst (exec (Start jobId t1) s)
             @ fst (exec (Extracted jobId pup t2) (snd (exec (Start jobId t1) s)))
             @ fst (exec (Closed jobId)
                      (snd (exec (Extracted jobId pup t2) (snd (exec (Start jobId t1) s)))))"
    and "heap (snd (processJob pup t1 t2 jobId u s))
           = heap (snd (exec (Closed jobId)
                      (snd (exec (Extracted jobId pup t2) (snd (exec (Start jobId t1) s))))))"
    and "jobStore (snd (processJob pup t1 t2 jobId u s))
           = jobStore (snd (exec (Closed jobId)
                      (snd (exec (Extracted jobId pup t2) (snd (exec (Start jobId t1) s))))))"
  using assms
  by (auto simp add: processJob_def processJob_start_def Let_def store_back_def settle_def
        split: option.splits prod.splits sum.splits)

lemma processJob_launches_first:
  assumes "map_of (jobStore s) jobId = Some r"
  shows "\<exists>calls. fst (processJob pup t1 t2 jobId u s) = Launch # calls"
  using assms
  by (auto simp add: processJob_def processJob_start_def extraction_def Let_def
        split: option.splits sum.splits prod.splits)

text \<open>
  Claim C8 fails on the code.  \<open>processJob\<close> never looks at the form of the
  URL: for a job that exists its first step is to launch the browser, and a URL
  that the URL constructor rejects is handed to \<open>page.goto\<close>.  Evaluated at the
  submission of \<open>not a url\<close>: the plain-fetch handler answers 400 "Invalid
  URL format" and fetches nothing, while the job handler accepts the
  submission and \<open>processJob\<close> launches the browser, navigates, and records the
  navigation's own error.
\<close>

theorem processJob_malformed_url_reaches_browser:
  "sample_hostname ''not a url'' = None
   \<and> crawl sample_hostname no_fetch no_parse (Some ''not a url'')
       = ([], Reply400 ''Invalid URL format'')
   \<and> fst (processJob bad_url_puppeteer 1001 1500 ''job-1'' ''not a url''
            (submit (Some ''not a url'') ''job-1'' 1000 initial))
       = [Launch, NewPage, SetUserAgent, SetRequestInterception, Goto ''not a url'', Close]
   \<and> getJob (snd (processJob bad_url_puppeteer 1001 1500 ''job-1'' ''not a url''
                    (submit (Some ''not a url'') ''job-1'' 1000 initial))) ''job-1''
       = Some \<lparr>job_id = ''job-1'', url = ''not a url'', status = FAILED, submittedAt = 1000,
               startedAt = Some 1001, completedAt = Some 1500, result = None,
               error = Some ''Protocol error (Page.navigate): Cannot navigate to invalid URL''\<rparr>"
  by (simp add: sample_hostname_def crawl_def processJob_def processJob_start_def submit_def
        initial_def extraction_def bad_url_puppeteer_def sample_puppeteer_def settle_def
        store_back_def getJob_def)

section \<open>Properties of the audit assembler\<close>

text \<open>
  When every response is counted, the loop makes the requests that are left of
  the 30 and then throws the timeout error.
\<close>

lemma pollLoop_counted:
  assumes "\<And>k. counted (polls k)"
    and "attempts \<le> MAX_POLLING_ATTEMPTS"
    and "MAX_POLLING_ATTEMPTS - attempts < fuel"
  shows "pollLoop fuel polls n attempts
           = Some (Thrown ''Crawl timed out after 60 seconds'',
                   n + (MAX_POLLING_ATTEMPTS - attempts))"
  using assms(2,3)
proof (induction fuel arbitrary: n attempts)
  case 0
  then show ?case by simp
next
  case (Suc fuel)
  show ?case
  proof (cases "attempts < MAX_POLLING_ATTEMPTS")
    case False
    then show ?thesis
      using Suc.prems by simp
  next
    case True
    obtain job where job: "polls n = Json job" "response_status job \<noteq> FAILED"
      "response_status job = COMPLETED \<longrightarrow> response_result job = None"
      using assms(1) [of n] by (auto simp add: counted_def split: response.splits)
    have step: "pollLoop (Suc fuel) polls n attempts = pollLoop fuel polls (Suc n) (Suc attempts)"
      using True job by (cases "response_status job") (simp_all split: option.splits)
    have "pollLoop fuel polls (Suc n) (Suc attempts)
            = Some (Thrown ''Crawl timed out after 60 seconds'',
                    Suc n + (MAX_POLLING_ATTEMPTS - Suc attempts))"
      using True Suc.prems by (intro Suc.IH) simp_all
    then show ?thesis
      using True step by simp
  qed
qed

text \<open>
  A response that is not \<open>ok\<close> takes the \<open>continue\<close> before \<open>attempts++\<close>:
  when every response is of that kind the counter stays where it is and the
  fuel runs out.
\<close>

lemma pollLoop_uncounted:
  assumes "\<And>k. \<exists>statusText. polls k = NotOk statusText"
    and "attempts < MAX_POLLING_ATTEMPTS"
  shows "pollLoop fuel polls n attempts = None"
proof (induction fuel arbitrary: n)
  case 0
  show ?case by simp
next
  case (Suc fuel)
  obtain statusText where "polls n = NotOk statusText"
    using assms(1) by blast
  then show ?case
    using assms(2) Suc.IH by simp
qed

text \<open>
  Claim C6 fails on the code.  Against a job API that answers every status
  request with an error status the polling loop never ends, whatever the fuel:
  it makes more than 30 requests and never throws the timeout error.
\<close>

theorem pollLoop_not_ok_never_ends:
  "(\<forall>k. \<exists>statusText. polls k = NotOk statusText) \<Longrightarrow> pollLoop fuel polls n 0 = None"
  by (rule pollLoop_uncounted) (simp_all add: MAX_POLLING_ATTEMPTS_def)

theorem pollLoop_not_ok_never_ends_witness:
  "(\<forall>k. \<exists>statusText. always_not_ok k = NotOk statusText)
   \<and> pollLoop 1000 always_not_ok 0 0 = None
   \<and> pollLoop 31 always_processing 0 0
       = Some (Thrown ''Crawl timed out after 60 seconds'', 30)"
proof -
  have a: "\<forall>k. \<exists>statusText. always_not_ok k = NotOk statusText"
    by (simp add: always_not_ok_def)
  have c: "counted (always_processing k)" for k
    by (simp add: counted_def always_processing_def)
  have "pollLoop 31 always_processing 0 0
          = Some (Thrown ''Crawl timed out after 60 seconds'', 0 + (MAX_POLLING_ATTEMPTS - 0))"
    by (rule pollLoop_counted [OF c]) (simp_all add: MAX_POLLING_ATTEMPTS_def)
  then show ?thesis
    using a pollLoop_not_ok_never_ends [OF a, of 1000 0] by (simp add: MAX_POLLING_ATTEMPTS_def)
qed

text \<open>
  \<open>crawlWebsite\<close> never rejects: whenever it settles, it resolves to an audit.
  Every error thrown in the \<open>try\<close> block is answered with the mock audit.
\<close>

lemma crawlWebsite_never_rejects:
  "crawlWebsite fuel P uuid isoNow submitResponse polls u \<noteq> Some (Inl message)"
  by (simp add: crawlWebsite_def split: option.splits sum.splits prod.splits)

lemma crawlWebsite_fallback:
  assumes "crawlWebsite_try fuel P uuid isoNow submitResponse polls u
             = Some (Inl (message, n))"
  shows "crawlWebsite fuel P uuid isoNow submitResponse polls u
           = Some (Inr \<lparr>audit = generateMockAudit P uuid isoNow u, simulated = True,
                        requests = n, waited_ms = n * POLLING_INTERVAL_MS + 2000\<rparr>)"
  using assms by (simp add: crawlWebsite_def)

lemma crawlWebsite_try_failures:
  "crawlWebsite_try fuel P uuid isoNow (NetworkFailure message) polls u
     = Some (Inl (message, 0))"
  "crawlWebsite_try fuel P uuid isoNow (NotOk statusText) polls u
     = Some (Inl (''Job Submission Failed: '' @ statusText, 0))"
  "crawlWebsite_try fuel P uuid isoNow (BadJson message) polls u
     = Some (Inl (message, 0))"
  "pollLoop fuel polls 0 0 = Some (Thrown message, n) \<Longrightarrow>
     crawlWebsite_try fuel P uuid isoNow (Json jobId) polls u = Some (Inl (message, n))"
  "pollLoop fuel polls 0 0 = Some (Completed (Malformed message), n) \<Longrightarrow>
     crawlWebsite_try fuel P uuid isoNow (Json jobId) polls u = Some (Inl (message, n))"
  by (simp_all add: crawlWebsite_try_def)

text \<open>
  Claim C7 fails on the code, through the defect of claim C6.  Against a job API
  that accepts the submission and then answers every status request with an
  error status, \<open>crawlWebsite\<close> neither rejects nor resolves: its caller
  receives nothing, whatever the fuel.
\<close>

theorem crawlWebsite_not_ok_never_returns:
  "(\<forall>k. \<exists>statusText. polls k = NotOk statusText) \<Longrightarrow>
     crawlWebsite fuel P uuid isoNow (Json jobId) polls u = None"
proof -
  assume "\<forall>k. \<exists>statusText. polls k = NotOk statusText"
  then have "pollLoop fuel polls 0 0 = None"
    by (intro pollLoop_uncounted) (simp_all add: MAX_POLLING_ATTEMPTS_def)
  then show ?thesis
    by (simp add: crawlWebsite_def crawlWebsite_try_def)
qed

theorem crawlWebsite_not_ok_never_returns_witness:
  "(\<forall>k. \<exists>statusText. always_not_ok k = NotOk statusText)
   \<and> crawlWebsite 1000 sample_platform (js ''a1'') (js ''2024-01-01T00:00:00.000Z'')
         (Json ''job-1'') always_not_ok (js ''https://example.com'') = None"
proof -
  have a: "\<forall>k. \<exists>statusText. always_not_ok k = NotOk statusText"
    by (simp add: always_not_ok_def)
  show ?thesis
    using a crawlWebsite_not_ok_never_returns [OF a] by simp
qed

end
